theory Spec2Isabelle
  imports Complex_Main
begin

section \<open>JavaScript numbers\<close>

text \<open>
  A JavaScript \<^verbatim>\<open>number\<close> is an IEEE 754 binary64 value.  \<open>Fin x\<close> is the finite
  double whose value is the real \<open>x\<close>; the remaining constructors are the two
  infinities and NaN.  The two zeros are identified: the code below never looks at
  the sign of a zero (\<^verbatim>\<open>===\<close>, \<^verbatim>\<open><=\<close>, \<^verbatim>\<open>!x\<close> and \<^verbatim>\<open>isFinite\<close> do not tell them
  apart, and the only divisor that can be a computed zero is a difference
  \<^verbatim>\<open>pow - 1\<close>, which is \<open>+0\<close> when it is zero).

  Every arithmetic operation computes the exact real result and rounds it to the
  nearest double, ties to the even significand (\<open>rnd\<close>).  The values that the
  operations return are doubles (\<open>rnd\<close> is idempotent, see \<open>rnd_idem\<close> below); the
  type also holds \<open>Fin x\<close> for reals \<open>x\<close> that are not doubles, and a statement about
  every value of the type holds in particular for every double.
\<close>

datatype jsnum = Fin real | PosInf | NegInf | NaN

definition pow2 :: "int \<Rightarrow> real" where
  "pow2 e = (if 0 \<le> e then 2 ^ nat e else 1 / 2 ^ nat (- e))"

text \<open>Number of binary digits of a positive integer (\<open>0\<close> for \<open>n \<le> 0\<close>).\<close>

function bitlen :: "int \<Rightarrow> nat" where
  "bitlen n = (if n \<le> 0 then 0 else Suc (bitlen (n div 2)))"
  by pat_completeness auto
termination
proof (relation "measure nat")
  show "wf (measure nat)" by simp
next
  fix n :: int
  assume pos: "\<not> n \<le> 0"
  then have "n div 2 < n" by linarith
  with pos show "(n div 2, n) \<in> measure nat" by simp
qed

declare bitlen.simps [simp del]

text \<open>\<open>ilog2 q\<close> is the binary exponent of \<open>q \<noteq> 0\<close>: \<open>2 ^ ilog2 q \<le> \<bar>q\<bar> < 2 ^ (ilog2 q + 1)\<close>.\<close>

definition ilog2 :: "real \<Rightarrow> int" where
  "ilog2 q =
     (if 1 \<le> \<bar>q\<bar> then int (bitlen \<lfloor>\<bar>q\<bar>\<rfloor>) - 1
      else let l = int (bitlen \<lfloor>1 / \<bar>q\<bar>\<rfloor>)
           in if pow2 (1 - l) \<le> \<bar>q\<bar> then 1 - l else - l)"

text \<open>Rounding to the nearest integer, ties to the even one.\<close>

definition round_even :: "real \<Rightarrow> int" where
  "round_even q =
     (let f = \<lfloor>q\<rfloor>; d = q - of_int f
      in if d < 1 / 2 then f
         else if 1 / 2 < d then f + 1
         else if even f then f else f + 1)"

text \<open>
  Rounding a real to binary64: 53 significant bits, least exponent \<open>-1074\<close>
  (subnormals), overflow to an infinity once the rounded value reaches \<open>2 ^ 1024\<close>.
\<close>

definition rnd :: "real \<Rightarrow> jsnum" where
  "rnd q =
     (if q = 0 then Fin 0
      else let e = max (- 1074) (ilog2 q - 52);
               r = of_int (round_even (\<bar>q\<bar> / pow2 e)) * pow2 e
           in if pow2 1024 \<le> r then (if 0 < q then PosInf else NegInf)
              else Fin (if 0 < q then r else - r))"

text \<open>A decimal literal of the source (or of a JSON text) denotes the nearest double.\<close>

definition lit :: "real \<Rightarrow> jsnum" where
  "lit q = rnd q"

fun fadd :: "jsnum \<Rightarrow> jsnum \<Rightarrow> jsnum" where
  "fadd (Fin a) (Fin b) = rnd (a + b)"
| "fadd NaN _ = NaN"
| "fadd _ NaN = NaN"
| "fadd PosInf NegInf = NaN"
| "fadd NegInf PosInf = NaN"
| "fadd PosInf _ = PosInf"
| "fadd _ PosInf = PosInf"
| "fadd NegInf _ = NegInf"
| "fadd _ NegInf = NegInf"

fun fneg :: "jsnum \<Rightarrow> jsnum" where
  "fneg (Fin a) = Fin (- a)"
| "fneg PosInf = NegInf"
| "fneg NegInf = PosInf"
| "fneg NaN = NaN"

definition fsub :: "jsnum \<Rightarrow> jsnum \<Rightarrow> jsnum" where
  "fsub a b = fadd a (fneg b)"

fun fmul :: "jsnum \<Rightarrow> jsnum \<Rightarrow> jsnum" where
  "fmul (Fin a) (Fin b) = rnd (a * b)"
| "fmul NaN _ = NaN"
| "fmul _ NaN = NaN"
| "fmul PosInf (Fin b) = (if b = 0 then NaN else if 0 < b then PosInf else NegInf)"
| "fmul NegInf (Fin b) = (if b = 0 then NaN else if 0 < b then NegInf else PosInf)"
| "fmul (Fin a) PosInf = (if a = 0 then NaN else if 0 < a then PosInf else NegInf)"
| "fmul (Fin a) NegInf = (if a = 0 then NaN else if 0 < a then NegInf else PosInf)"
| "fmul PosInf PosInf = PosInf"
| "fmul NegInf NegInf = PosInf"
| "fmul PosInf NegInf = NegInf"
| "fmul NegInf PosInf = NegInf"

text \<open>Division; a zero divisor is taken to be \<open>+0\<close> (see above).\<close>

fun fdiv :: "jsnum \<Rightarrow> jsnum \<Rightarrow> jsnum" where
  "fdiv (Fin a) (Fin b) =
     (if b = 0 then (if a = 0 then NaN else if 0 < a then PosInf else NegInf)
      else rnd (a / b))"
| "fdiv NaN _ = NaN"
| "fdiv _ NaN = NaN"
| "fdiv (Fin a) PosInf = Fin 0"
| "fdiv (Fin a) NegInf = Fin 0"
| "fdiv PosInf (Fin b) = (if 0 \<le> b then PosInf else NegInf)"
| "fdiv NegInf (Fin b) = (if 0 \<le> b then NegInf else PosInf)"
| "fdiv PosInf PosInf = NaN"
| "fdiv PosInf NegInf = NaN"
| "fdiv NegInf PosInf = NaN"
| "fdiv NegInf NegInf = NaN"

text \<open>\<^verbatim>\<open>a <= b\<close> and \<^verbatim>\<open>a === b\<close> on numbers: false as soon as one side is NaN.\<close>

fun fle :: "jsnum \<Rightarrow> jsnum \<Rightarrow> bool" where
  "fle NaN _ = False"
| "fle _ NaN = False"
| "fle (Fin a) (Fin b) = (a \<le> b)"
| "fle NegInf _ = True"
| "fle _ PosInf = True"
| "fle PosInf _ = False"
| "fle _ NegInf = False"

fun feq :: "jsnum \<Rightarrow> jsnum \<Rightarrow> bool" where
  "feq NaN _ = False"
| "feq _ NaN = False"
| "feq a b = (a = b)"

fun isFinite :: "jsnum \<Rightarrow> bool" where
  "isFinite (Fin a) = True"
| "isFinite _ = False"

text \<open>\<^verbatim>\<open>ToBoolean\<close> on a number: \<open>0\<close> and NaN are falsy.\<close>

fun truthy :: "jsnum \<Rightarrow> bool" where
  "truthy (Fin a) = (a \<noteq> 0)"
| "truthy NaN = False"
| "truthy _ = True"

text \<open>
  \<^verbatim>\<open>Math.round\<close>: the nearest integer, a tie going to the larger one (towards
  \<open>+\<infinity>\<close>); the result is exact.
\<close>

fun Math_round :: "jsnum \<Rightarrow> jsnum" where
  "Math_round (Fin q) = Fin (of_int \<lfloor>q + 1 / 2\<rfloor>)"
| "Math_round x = x"

text \<open>\<^verbatim>\<open>Number.EPSILON\<close> is \<open>2\<^sup>-\<^sup>5\<^sup>2\<close>.\<close>

definition EPSILON :: jsnum where
  "EPSILON = Fin (pow2 (- 52))"

text \<open>
  \<^verbatim>\<open>Math.pow\<close> is implementation-approximated in ECMAScript, so the functions that
  call it take it as a parameter.  \<open>pow_rounded\<close> is the correctly rounded power for
  a finite base and a non-negative integral exponent; it is used only to run
  concrete examples.
\<close>

fun pow_rounded :: "jsnum \<Rightarrow> jsnum \<Rightarrow> jsnum" where
  "pow_rounded (Fin b) (Fin e) =
     (if 0 \<le> e \<and> of_int \<lfloor>e\<rfloor> = e then rnd (b ^ nat \<lfloor>e\<rfloor>) else NaN)"
| "pow_rounded _ _ = NaN"

section \<open>Strings of integers\<close>

text \<open>The decimal digit \<open>d < 10\<close> as a character.\<close>

definition digit_char :: "nat \<Rightarrow> char" where
  "digit_char d = ''0123456789'' ! d"

fun digits :: "nat \<Rightarrow> string" where
  "digits n = (if n < 10 then [digit_char n] else digits (n div 10) @ [digit_char (n mod 10)])"

declare digits.simps [simp del]

text \<open>\<^verbatim>\<open>String(i)\<close> for an integer \<open>i\<close>.\<close>

definition String_of_int :: "int \<Rightarrow> string" where
  "String_of_int i = (if i < 0 then CHR ''-'' # digits (nat (- i)) else digits (nat i))"

text \<open>\<^verbatim>\<open>s.padStart(n, "0")\<close>.\<close>

definition padStart0 :: "nat \<Rightarrow> string \<Rightarrow> string" where
  "padStart0 n s = replicate (n - length s) CHR ''0'' @ s"

section \<open>The household-finance variant: \<^verbatim>\<open>app/types.ts\<close>, \<^verbatim>\<open>app/utils.ts\<close>\<close>

text \<open>
  The repository holds two near-duplicate applications.  The first one lives under
  \<^verbatim>\<open>app/\<close> and \<^verbatim>\<open>pages/\<close> (storage key \<^verbatim>\<open>household_finance_v1\<close>); where one of its
  names clashes with the second application, the name carries the suffix \<open>_app\<close>.
  The second one is the root \<^verbatim>\<open>App.tsx\<close>, \<^verbatim>\<open>utils.ts\<close>, \<^verbatim>\<open>types.ts\<close>, \<^verbatim>\<open>storage.ts\<close>
  (storage key \<^verbatim>\<open>expapp.state.v1\<close>); its clashing names carry \<open>_exp\<close> or \<open>Exp\<close>.
\<close>

datatype Currency = GBP | EUR | USD | INR

datatype PaymentFrequency = Monthly | Weekly | Fortnightly | Yearly

datatype LoanType =
  Mortgage | Personal_loan | Car_loan | Education_loan | Credit_card | BNPL | Other_loan

datatype Owner = Self | Spouse | Joint

datatype AssetCategory = Cash_bank | Investments | Property | Vehicles | Other_asset

datatype LiabilityCategory = Loans_cat | Credit_card_cat | Overdraft | Other_debt

record Loan =
  Loan_id :: string
  Loan_name :: string
  Loan_type :: LoanType
  Loan_lender :: "string option"
  Loan_currency :: Currency
  Loan_principal :: "jsnum option"
  Loan_annualRate :: "jsnum option"
  Loan_termMonths :: "jsnum option"
  Loan_emi :: "jsnum option"
  Loan_paymentFrequency :: PaymentFrequency
  Loan_outstandingBalance :: jsnum
  Loan_nextDueDate :: "string option"
  Loan_startDate :: "string option"
  Loan_notes :: "string option"
  Loan_autoCalcEmi :: bool

record Asset =
  Asset_id :: string
  Asset_name :: string
  Asset_category :: AssetCategory
  Asset_value :: jsnum
  Asset_owner :: Owner
  Asset_valuationDate :: string
  Asset_currency :: Currency
  Asset_notes :: "string option"

record Liability =
  Liability_id :: string
  Liability_name :: string
  Liability_category :: LiabilityCategory
  Liability_outstanding :: jsnum
  Liability_annualRate :: "jsnum option"
  Liability_dueDate :: "string option"
  Liability_currency :: Currency
  Liability_notes :: "string option"

record Snapshot =
  Snapshot_id :: string
  Snapshot_month :: string
  Snapshot_currency :: Currency
  Snapshot_assetsTotal :: jsnum
  Snapshot_liabilitiesTotal :: jsnum
  Snapshot_netWorth :: jsnum
  Snapshot_createdAt :: string

record AppState =
  AppState_currency :: Currency
  AppState_loans :: "Loan list"
  AppState_assets :: "Asset list"
  AppState_liabilities :: "Liability list"
  AppState_snapshots :: "Snapshot list"

subsection \<open>\<^verbatim>\<open>app/utils.ts\<close>\<close>

text \<open>\<^verbatim>\<open>Math.round((n + Number.EPSILON) * 100) / 100\<close>\<close>

definition round2 :: "jsnum \<Rightarrow> jsnum" where
  "round2 n = fdiv (Math_round (fmul (fadd n EPSILON) (Fin 100))) (Fin 100)"

definition monthlyEquivalent :: "jsnum \<Rightarrow> PaymentFrequency \<Rightarrow> jsnum" where
  "monthlyEquivalent amount freq =
     (if \<not> isFinite amount then Fin 0
      else case freq of
        Weekly \<Rightarrow> fdiv (fmul amount (Fin 52)) (Fin 12)
      | Fortnightly \<Rightarrow> fdiv (fmul amount (Fin 26)) (Fin 12)
      | Yearly \<Rightarrow> fdiv amount (Fin 12)
      | Monthly \<Rightarrow> amount)"

text \<open>\<^verbatim>\<open>!x\<close> for an optional number: true for \<^verbatim>\<open>undefined\<close>, \<open>0\<close> and NaN.\<close>

definition falsy :: "jsnum option \<Rightarrow> bool" where
  "falsy x = (case x of None \<Rightarrow> True | Some v \<Rightarrow> \<not> truthy v)"

text \<open>
  \<^verbatim>\<open>calcEmiMonthly(P?, annualRate?, n?)\<close>; \<open>None\<close> is the result \<^verbatim>\<open>null\<close>.  The first
  argument is \<^verbatim>\<open>Math.pow\<close>.
\<close>

definition calcEmiMonthly ::
  "(jsnum \<Rightarrow> jsnum \<Rightarrow> jsnum) \<Rightarrow> jsnum option \<Rightarrow> jsnum option \<Rightarrow> jsnum option \<Rightarrow> jsnum option"
where
  "calcEmiMonthly Math_pow P annualRate n =
     (if falsy P \<or> falsy annualRate \<or> falsy n then None
      else (case (P, annualRate, n) of
        (Some P', Some annualRate', Some n') \<Rightarrow>
          (if fle P' (Fin 0) \<or> fle n' (Fin 0) then None
           else (let r = fdiv (fdiv annualRate' (Fin 100)) (Fin 12) in
             (if feq r (Fin 0) then Some (round2 (fdiv P' n'))
              else (let pow = Math_pow (fadd (Fin 1) r) n';
                        emi = fdiv (fmul (fmul P' r) pow) (fsub pow (Fin 1))
                    in Some (round2 emi)))))
      | _ \<Rightarrow> None))"

text \<open>\<^verbatim>\<open>x ?? 0\<close>\<close>

definition or_zero :: "jsnum option \<Rightarrow> jsnum" where
  "or_zero x = (case x of None \<Rightarrow> Fin 0 | Some v \<Rightarrow> v)"

definition getLoanMonthlyEmi :: "(jsnum \<Rightarrow> jsnum \<Rightarrow> jsnum) \<Rightarrow> Loan \<Rightarrow> jsnum" where
  "getLoanMonthlyEmi Math_pow loan =
     (let base = (if Loan_autoCalcEmi loan
                  then or_zero (calcEmiMonthly Math_pow (Loan_principal loan)
                                  (Loan_annualRate loan) (Loan_termMonths loan))
                  else or_zero (Loan_emi loan))
      in round2 (monthlyEquivalent base (Loan_paymentFrequency loan)))"

text \<open>\<^verbatim>\<open>round2(nums.reduce((a, b) => a + (isFinite(b) ? b : 0), 0))\<close>\<close>

definition sum_app :: "jsnum list \<Rightarrow> jsnum" where
  "sum_app nums = round2 (foldl (\<lambda>a b. fadd a (if isFinite b then b else Fin 0)) (Fin 0) nums)"

text \<open>
  Not a function of the source: the value that the callback of \<open>sum_app\<close> adds for
  an addend, \<open>0\<close> in place of one that is not finite.
\<close>

definition finite_or_zero :: "jsnum \<Rightarrow> jsnum" where
  "finite_or_zero x = (if isFinite x then x else Fin 0)"

text \<open>
  A \<^verbatim>\<open>Date\<close> is read through \<^verbatim>\<open>getFullYear()\<close>, \<^verbatim>\<open>getMonth()\<close> (0 to 11) and
  \<^verbatim>\<open>toISOString()\<close> only.
\<close>

record Date =
  getFullYear :: int
  getMonth :: nat
  toISOString :: string

definition yyyyMm :: "Date \<Rightarrow> string" where
  "yyyyMm date =
     (let y = getFullYear date;
          m = padStart0 2 (String_of_int (int (getMonth date) + 1))
      in String_of_int y @ ''-'' @ m)"

subsection \<open>\<^verbatim>\<open>pages/Dashboard.tsx\<close>\<close>

definition assetsTotal_app :: "AppState \<Rightarrow> jsnum" where
  "assetsTotal_app state =
     sum_app (map Asset_value
       (filter (\<lambda>a. Asset_currency a = AppState_currency state) (AppState_assets state)))"

definition liabilitiesTotal_app :: "AppState \<Rightarrow> jsnum" where
  "liabilitiesTotal_app state =
     (let baseLiabs = sum_app (map Liability_outstanding
            (filter (\<lambda>l. Liability_currency l = AppState_currency state)
               (AppState_liabilities state)));
          loansOutstanding = sum_app (map Loan_outstandingBalance
            (filter (\<lambda>l. Loan_currency l = AppState_currency state) (AppState_loans state)))
      in sum_app [baseLiabs, loansOutstanding])"

definition netWorth_app :: "AppState \<Rightarrow> jsnum" where
  "netWorth_app state = sum_app [assetsTotal_app state, fneg (liabilitiesTotal_app state)]"

definition monthlyEmiTotal_app :: "(jsnum \<Rightarrow> jsnum \<Rightarrow> jsnum) \<Rightarrow> AppState \<Rightarrow> jsnum" where
  "monthlyEmiTotal_app Math_pow state =
     sum_app (map (getLoanMonthlyEmi Math_pow)
       (filter (\<lambda>l. Loan_currency l = AppState_currency state) (AppState_loans state)))"

text \<open>
  \<^verbatim>\<open>saveSnapshot\<close> of the dashboard.  The fresh identity \<^verbatim>\<open>uid()\<close> and the clock
  \<^verbatim>\<open>new Date()\<close> are inputs; the result is the state handed to \<^verbatim>\<open>setState\<close>.
\<close>

definition newSnapshot_app :: "string \<Rightarrow> Date \<Rightarrow> AppState \<Rightarrow> Snapshot" where
  "newSnapshot_app uid now state =
     \<lparr> Snapshot_id = uid,
       Snapshot_month = yyyyMm now,
       Snapshot_currency = AppState_currency state,
       Snapshot_assetsTotal = assetsTotal_app state,
       Snapshot_liabilitiesTotal = liabilitiesTotal_app state,
       Snapshot_netWorth = netWorth_app state,
       Snapshot_createdAt = toISOString now \<rparr>"

definition saveSnapshot_app :: "string \<Rightarrow> Date \<Rightarrow> AppState \<Rightarrow> AppState" where
  "saveSnapshot_app uid now state =
     (let snap = newSnapshot_app uid now state;
          filtered = filter
            (\<lambda>s. \<not> (Snapshot_month s = Snapshot_month snap
                      \<and> Snapshot_currency s = Snapshot_currency snap))
            (AppState_snapshots state)
      in state\<lparr> AppState_snapshots := snap # filtered \<rparr>)"

subsection \<open>\<^verbatim>\<open>pages/Loans.tsx\<close>\<close>

definition upsertLoan :: "Loan \<Rightarrow> AppState \<Rightarrow> AppState" where
  "upsertLoan next state =
     (let exists = list_ex (\<lambda>l. Loan_id l = Loan_id next) (AppState_loans state);
          loans = (if exists
                   then map (\<lambda>l. if Loan_id l = Loan_id next then next else l)
                          (AppState_loans state)
                   else next # AppState_loans state)
      in state\<lparr> AppState_loans := loans \<rparr>)"

definition removeLoan :: "string \<Rightarrow> AppState \<Rightarrow> AppState" where
  "removeLoan i state =
     state\<lparr> AppState_loans := filter (\<lambda>l. Loan_id l \<noteq> i) (AppState_loans state) \<rparr>"

section \<open>JSON values and the local store\<close>

text \<open>
  What \<^verbatim>\<open>JSON.parse\<close> returns.  The TypeScript cast \<^verbatim>\<open>as AppState\<close> checks nothing,
  so a loaded state is an object with arbitrary JSON values as properties: a map
  from property names to values.
\<close>

datatype json =
  JNull | JBool bool | JNumber jsnum | JString string
  | JArray "json list" | JObject "(string \<times> json) list"






subsection \<open>\<^verbatim>\<open>app/storage.ts\<close>\<close>




section \<open>The ExpApp variant: \<^verbatim>\<open>types.ts\<close>, \<^verbatim>\<open>utils.ts\<close>, \<^verbatim>\<open>storage.ts\<close>, \<^verbatim>\<open>App.tsx\<close>\<close>

datatype CurrencyCode = CC_GBP | CC_USD | CC_EUR

datatype Frequency = monthly | weekly | annual

record ExpLoan =
  ExpLoan_id :: string
  ExpLoan_name :: string
  ExpLoan_loanType :: string
  ExpLoan_lender :: string
  ExpLoan_startDate :: string
  ExpLoan_principal :: jsnum
  ExpLoan_annualRate :: jsnum
  ExpLoan_termMonths :: jsnum
  ExpLoan_emi :: "jsnum option"
  ExpLoan_nextDueDate :: string
  ExpLoan_outstandingBalance :: jsnum
  ExpLoan_currency :: CurrencyCode
  ExpLoan_notes :: "string option"
  ExpLoan_autoCalculate :: bool

record ExpAsset =
  ExpAsset_id :: string
  ExpAsset_name :: string
  ExpAsset_category :: string
  ExpAsset_value :: jsnum
  ExpAsset_owner :: Owner
  ExpAsset_valuationDate :: string
  ExpAsset_currency :: CurrencyCode
  ExpAsset_notes :: "string option"

record ExpLiability =
  ExpLiability_id :: string
  ExpLiability_name :: string
  ExpLiability_category :: string
  ExpLiability_outstanding :: jsnum
  ExpLiability_annualRate :: "jsnum option"
  ExpLiability_dueDate :: "string option"
  ExpLiability_currency :: CurrencyCode
  ExpLiability_notes :: "string option"

record ExpSnapshot =
  ExpSnapshot_id :: string
  ExpSnapshot_month :: string
  ExpSnapshot_assetsTotal :: jsnum
  ExpSnapshot_liabilitiesTotal :: jsnum
  ExpSnapshot_netWorth :: jsnum
  ExpSnapshot_createdAt :: string

record BudgetItem =
  BudgetItem_id :: string
  BudgetItem_category :: string
  BudgetItem_name :: string
  BudgetItem_amount :: jsnum
  BudgetItem_frequency :: Frequency

record BudgetData =
  income :: "BudgetItem list"
  expenses :: "BudgetItem list"

record ExpenseTransaction =
  tx_id :: string
  tx_date :: string
  tx_category :: string
  tx_description :: string
  tx_amount :: jsnum

record ExpAppState =
  ExpAppState_loans :: "ExpLoan list"
  ExpAppState_assets :: "ExpAsset list"
  ExpAppState_liabilities :: "ExpLiability list"
  ExpAppState_budget :: BudgetData
  ExpAppState_expenseTransactions :: "ExpenseTransaction list"
  ExpAppState_snapshots :: "ExpSnapshot list"

subsection \<open>\<^verbatim>\<open>utils.ts\<close>\<close>

definition toMonthly :: "BudgetItem \<Rightarrow> jsnum" where
  "toMonthly item =
     (if BudgetItem_frequency item = monthly then BudgetItem_amount item
      else if BudgetItem_frequency item = weekly
        then fdiv (fmul (BudgetItem_amount item) (Fin 52)) (Fin 12)
      else fdiv (BudgetItem_amount item) (Fin 12))"

definition calculateEmi :: "(jsnum \<Rightarrow> jsnum \<Rightarrow> jsnum) \<Rightarrow> ExpLoan \<Rightarrow> jsnum" where
  "calculateEmi Math_pow loan =
     (let principal = ExpLoan_principal loan;
          monthlyRate = fdiv (fdiv (ExpLoan_annualRate loan) (Fin 100)) (Fin 12);
          n = ExpLoan_termMonths loan
      in if fle principal (Fin 0) \<or> fle monthlyRate (Fin 0) \<or> fle n (Fin 0) then Fin 0
         else let factor = Math_pow (fadd (Fin 1) monthlyRate) n
              in fdiv (fmul (fmul principal monthlyRate) factor) (fsub factor (Fin 1)))"

text \<open>\<^verbatim>\<open>values.reduce((a, b) => a + b, 0)\<close>\<close>

definition sum_exp :: "jsnum list \<Rightarrow> jsnum" where
  "sum_exp values = foldl (\<lambda>a b. fadd a b) (Fin 0) values"

subsection \<open>\<^verbatim>\<open>storage.ts\<close>\<close>




subsection \<open>\<^verbatim>\<open>App.tsx\<close>: derived totals and snapshots\<close>

text \<open>\<^verbatim>\<open>loan.emi || 0\<close>\<close>

definition emi_or_zero :: "jsnum option \<Rightarrow> jsnum" where
  "emi_or_zero x = (case x of None \<Rightarrow> Fin 0 | Some v \<Rightarrow> if truthy v then v else Fin 0)"

text \<open>
  The callback of \<^verbatim>\<open>loans.map\<close> in \<^verbatim>\<open>loansMonthlyEmi\<close>:
  \<^verbatim>\<open>loan.autoCalculate ? calculateEmi(loan) : loan.emi || 0\<close>.
\<close>

definition loanEmi_exp :: "(jsnum \<Rightarrow> jsnum \<Rightarrow> jsnum) \<Rightarrow> ExpLoan \<Rightarrow> jsnum" where
  "loanEmi_exp Math_pow loan =
     (if ExpLoan_autoCalculate loan then calculateEmi Math_pow loan
      else emi_or_zero (ExpLoan_emi loan))"

definition loansMonthlyEmi :: "(jsnum \<Rightarrow> jsnum \<Rightarrow> jsnum) \<Rightarrow> ExpAppState \<Rightarrow> jsnum" where
  "loansMonthlyEmi Math_pow state =
     sum_exp (map (loanEmi_exp Math_pow) (ExpAppState_loans state))"

definition assetsTotal_exp :: "ExpAppState \<Rightarrow> jsnum" where
  "assetsTotal_exp state = sum_exp (map ExpAsset_value (ExpAppState_assets state))"

definition liabilitiesTotal_exp :: "ExpAppState \<Rightarrow> jsnum" where
  "liabilitiesTotal_exp state =
     fadd (sum_exp (map ExpLiability_outstanding (ExpAppState_liabilities state)))
          (sum_exp (map ExpLoan_outstandingBalance (ExpAppState_loans state)))"

definition netWorth_exp :: "ExpAppState \<Rightarrow> jsnum" where
  "netWorth_exp state = fsub (assetsTotal_exp state) (liabilitiesTotal_exp state)"

text \<open>
  \<^verbatim>\<open>defaultSnapshot(month, assetsTotal, liabilitiesTotal)\<close>; the identity and the
  creation time are inputs.
\<close>

definition defaultSnapshot :: "string \<Rightarrow> string \<Rightarrow> string \<Rightarrow> jsnum \<Rightarrow> jsnum \<Rightarrow> ExpSnapshot" where
  "defaultSnapshot uid createdAt month assetsTotal liabilitiesTotal =
     \<lparr> ExpSnapshot_id = uid,
       ExpSnapshot_month = month,
       ExpSnapshot_assetsTotal = assetsTotal,
       ExpSnapshot_liabilitiesTotal = liabilitiesTotal,
       ExpSnapshot_netWorth = fsub assetsTotal liabilitiesTotal,
       ExpSnapshot_createdAt = createdAt \<rparr>"

definition month_exp :: "Date \<Rightarrow> string" where
  "month_exp now =
     String_of_int (getFullYear now) @ ''-''
       @ padStart0 2 (String_of_int (int (getMonth now) + 1))"

definition newSnapshot_exp :: "string \<Rightarrow> Date \<Rightarrow> ExpAppState \<Rightarrow> ExpSnapshot" where
  "newSnapshot_exp uid now state =
     defaultSnapshot uid (toISOString now) (month_exp now)
       (assetsTotal_exp state) (liabilitiesTotal_exp state)"

text \<open>
  \<^verbatim>\<open>saveSnapshot\<close> of \<^verbatim>\<open>App.tsx\<close>, up to the local \<^verbatim>\<open>update\<close>; the remote upsert of
  the snapshot that follows does not touch the local list.
\<close>

definition saveSnapshot_exp :: "string \<Rightarrow> Date \<Rightarrow> ExpAppState \<Rightarrow> ExpAppState" where
  "saveSnapshot_exp uid now state =
     (let month = month_exp now;
          existing = find (\<lambda>item. ExpSnapshot_month item = month) (ExpAppState_snapshots state);
          snapshot = newSnapshot_exp uid now state;
          updated = (case existing of
                       Some _ \<Rightarrow> map (\<lambda>item. if ExpSnapshot_month item = month then snapshot else item)
                                  (ExpAppState_snapshots state)
                     | None \<Rightarrow> snapshot # ExpAppState_snapshots state)
      in state\<lparr> ExpAppState_snapshots := updated \<rparr>)"

subsection \<open>\<^verbatim>\<open>App.tsx\<close>: mirroring the transactions to the remote table\<close>

text \<open>
  Modelled from the spec: the remote table \<^verbatim>\<open>expense_transactions\<close> is an external
  keyed store, one row per transaction identity (the primary key \<^verbatim>\<open>id\<close>), each
  row carrying the identity of the user that owns it.  The client sends three
  kinds of request; a request that is answered without an error has the effect
  \<open>apply_request\<close>, a request answered with an error changes nothing.
\<close>

record tx_row =
  row_id :: string
  row_user_id :: string
  row_date :: string
  row_category :: string
  row_description :: string
  row_amount :: jsnum

type_synonym tx_table = "string \<rightharpoonup> tx_row"

datatype request =
    Delete_eq_user string
  | Upsert_on_id "tx_row list"
  | Delete_eq_user_not_in string "string list"

fun apply_request :: "request \<Rightarrow> tx_table \<Rightarrow> tx_table" where
  "apply_request (Delete_eq_user u) t =
     (\<lambda>k. case t k of None \<Rightarrow> None
           | Some r \<Rightarrow> if row_user_id r = u then None else Some r)"
| "apply_request (Upsert_on_id rows) t = foldl (\<lambda>t' r. t'(row_id r \<mapsto> r)) t rows"
| "apply_request (Delete_eq_user_not_in u ids) t =
     (\<lambda>k. case t k of None \<Rightarrow> None
           | Some r \<Rightarrow> if row_user_id r = u \<and> k \<notin> set ids then None else Some r)"

text \<open>
  The remote side: the table and the requests received so far, oldest first.
  \<open>respond\<close> gives the error message of a request (\<open>None\<close>: no error).
\<close>

record remote =
  remote_rows :: tx_table
  remote_log :: "request list"

definition send :: "(request \<Rightarrow> string option) \<Rightarrow> request \<Rightarrow> remote \<Rightarrow> string option \<times> remote" where
  "send respond rq rm =
     (case respond rq of
        Some msg \<Rightarrow> (Some msg, rm\<lparr> remote_log := remote_log rm @ [rq] \<rparr>)
      | None \<Rightarrow> (None, \<lparr> remote_rows = apply_request rq (remote_rows rm),
                          remote_log = remote_log rm @ [rq] \<rparr>))"

definition payload_row :: "string \<Rightarrow> ExpenseTransaction \<Rightarrow> tx_row" where
  "payload_row userId tx =
     \<lparr> row_id = tx_id tx,
       row_user_id = userId,
       row_date = tx_date tx,
       row_category = tx_category tx,
       row_description = tx_description tx,
       row_amount = tx_amount tx \<rparr>"

text \<open>
  \<^verbatim>\<open>saveTransactionsToSupabase(items)\<close>.  \<open>userId\<close> is the session's user (\<open>None\<close> is
  \<^verbatim>\<open>null\<close>); the state threaded through is the \<^verbatim>\<open>authError\<close> slot of the component
  and the remote side.  The filter \<^verbatim>\<open>not("id", "in", (...))\<close> is given the quoted
  identities joined by commas; the request carries the list of identities.
\<close>

definition saveTransactionsToSupabase ::
  "(request \<Rightarrow> string option) \<Rightarrow> string option \<Rightarrow> ExpenseTransaction list
     \<Rightarrow> string option \<Rightarrow> remote \<Rightarrow> string option \<times> remote"
where
  "saveTransactionsToSupabase respond userId items authError rm =
     (case userId of
        None \<Rightarrow> (authError, rm)
      | Some u \<Rightarrow>
          (if u = [] then (authError, rm)
           else if length items = 0 then
             (case send respond (Delete_eq_user u) rm of
                (Some msg, rm1) \<Rightarrow> (Some msg, rm1)
              | (None, rm1) \<Rightarrow> (authError, rm1))
           else
             (let payload = map (payload_row u) items in
               (case send respond (Upsert_on_id payload) rm of
                  (Some msg, rm1) \<Rightarrow> (Some msg, rm1)
                | (None, rm1) \<Rightarrow>
                    (let ids = map tx_id items in
                      (case send respond (Delete_eq_user_not_in u ids) rm1 of
                         (Some msg, rm2) \<Rightarrow> (Some msg, rm2)
                       | (None, rm2) \<Rightarrow> (authError, rm2)))))))"

text \<open>The rows of the table that belong to a user.\<close>

definition rows_of :: "string \<Rightarrow> tx_table \<Rightarrow> tx_row set" where
  "rows_of u t = {r. \<exists>k. t k = Some r \<and> row_user_id r = u}"

section \<open>Example data\<close>

definition loan_ex :: "string \<Rightarrow> string \<Rightarrow> Loan" where
  "loan_ex i nm =
     \<lparr> Loan_id = i, Loan_name = nm, Loan_type = Personal_loan, Loan_lender = None,
       Loan_currency = GBP, Loan_principal = None, Loan_annualRate = None,
       Loan_termMonths = None, Loan_emi = Some (Fin 500), Loan_paymentFrequency = Weekly,
       Loan_outstandingBalance = Fin 1000, Loan_nextDueDate = None, Loan_startDate = None,
       Loan_notes = None, Loan_autoCalcEmi = False \<rparr>"

definition state_ex :: AppState where
  "state_ex =
     \<lparr> AppState_currency = GBP,
       AppState_loans = [loan_ex ''a'' ''car'', loan_ex ''b'' ''boat''],
       AppState_assets = [],
       AppState_liabilities = [],
       AppState_snapshots = [] \<rparr>"

definition tx_ex :: "string \<Rightarrow> string \<Rightarrow> ExpenseTransaction" where
  "tx_ex i d =
     \<lparr> tx_id = i, tx_date = ''2024-02-01'', tx_category = ''Household'',
       tx_description = d, tx_amount = Fin 3 \<rparr>"

definition remote_ex :: remote where
  "remote_ex =
     \<lparr> remote_rows =
         [''t0'' \<mapsto> payload_row ''u1'' (tx_ex ''t0'' ''stale''),
          ''t9'' \<mapsto> payload_row ''u2'' (tx_ex ''t9'' ''other'')],
       remote_log = [] \<rparr>"

definition now_ex :: Date where
  "now_ex = \<lparr> getFullYear = 2024, getMonth = 1, toISOString = ''2024-02-15T10:00:00.000Z'' \<rparr>"

definition exp_snapshot_ex :: "string \<Rightarrow> string \<Rightarrow> ExpSnapshot" where
  "exp_snapshot_ex i m =
     \<lparr> ExpSnapshot_id = i, ExpSnapshot_month = m, ExpSnapshot_assetsTotal = Fin 300,
       ExpSnapshot_liabilitiesTotal = Fin 100, ExpSnapshot_netWorth = Fin 200,
       ExpSnapshot_createdAt = m @ ''-01T09:00:00.000Z'' \<rparr>"

definition exp_state_ex :: ExpAppState where
  "exp_state_ex =
     \<lparr> ExpAppState_loans = [],
       ExpAppState_assets = [],
       ExpAppState_liabilities = [],
       ExpAppState_budget = \<lparr> income = [], expenses = [] \<rparr>,
       ExpAppState_expenseTransactions = [],
       ExpAppState_snapshots = [exp_snapshot_ex ''s1'' ''2024-01'', exp_snapshot_ex ''s2'' ''2024-02''] \<rparr>"

definition snapshot_ex :: "string \<Rightarrow> string \<Rightarrow> Currency \<Rightarrow> Snapshot" where
  "snapshot_ex i m c =
     \<lparr> Snapshot_id = i, Snapshot_month = m, Snapshot_currency = c,
       Snapshot_assetsTotal = Fin 300, Snapshot_liabilitiesTotal = Fin 100,
       Snapshot_netWorth = Fin 200, Snapshot_createdAt = m @ ''-01T09:00:00.000Z'' \<rparr>"

definition state_snap_ex :: AppState where
  "state_snap_ex =
     \<lparr> AppState_currency = GBP,
       AppState_loans = [],
       AppState_assets = [],
       AppState_liabilities = [],
       AppState_snapshots =
         [snapshot_ex ''s1'' ''2024-01'' GBP, snapshot_ex ''s2'' ''2024-02'' GBP,
          snapshot_ex ''s3'' ''2024-02'' EUR, snapshot_ex ''s4'' ''2024-02'' GBP] \<rparr>"




definition auto_loan_ex :: "jsnum \<Rightarrow> jsnum \<Rightarrow> jsnum \<Rightarrow> PaymentFrequency \<Rightarrow> Loan" where
  "auto_loan_ex P rate n freq =
     \<lparr> Loan_id = ''l1'', Loan_name = ''car'', Loan_type = Car_loan, Loan_lender = None,
       Loan_currency = GBP, Loan_principal = Some P, Loan_annualRate = Some rate,
       Loan_termMonths = Some n, Loan_emi = None, Loan_paymentFrequency = freq,
       Loan_outstandingBalance = P, Loan_nextDueDate = None, Loan_startDate = None,
       Loan_notes = None, Loan_autoCalcEmi = True \<rparr>"

definition exp_loan_ex :: "jsnum \<Rightarrow> jsnum \<Rightarrow> jsnum \<Rightarrow> jsnum option \<Rightarrow> bool \<Rightarrow> ExpLoan" where
  "exp_loan_ex P rate n e auto =
     \<lparr> ExpLoan_id = ''l1'', ExpLoan_name = ''car'', ExpLoan_loanType = ''Car loan'',
       ExpLoan_lender = ''bank'', ExpLoan_startDate = ''2024-01-01'', ExpLoan_principal = P,
       ExpLoan_annualRate = rate, ExpLoan_termMonths = n, ExpLoan_emi = e,
       ExpLoan_nextDueDate = ''2024-03-01'', ExpLoan_outstandingBalance = P,
       ExpLoan_currency = CC_GBP, ExpLoan_notes = None, ExpLoan_autoCalculate = auto \<rparr>"

definition budget_item_ex :: "jsnum \<Rightarrow> Frequency \<Rightarrow> BudgetItem" where
  "budget_item_ex a f =
     \<lparr> BudgetItem_id = ''b1'', BudgetItem_category = ''Household'', BudgetItem_name = ''rent'',
       BudgetItem_amount = a, BudgetItem_frequency = f \<rparr>"

definition asset_ex :: "jsnum \<Rightarrow> Asset" where
  "asset_ex v =
     \<lparr> Asset_id = ''a1'', Asset_name = ''savings'', Asset_category = Cash_bank,
       Asset_value = v, Asset_owner = Self, Asset_valuationDate = ''2024-02-01'',
       Asset_currency = GBP, Asset_notes = None \<rparr>"

definition liability_ex :: "jsnum \<Rightarrow> Liability" where
  "liability_ex v =
     \<lparr> Liability_id = ''d1'', Liability_name = ''card'', Liability_category = Credit_card_cat,
       Liability_outstanding = v, Liability_annualRate = None, Liability_dueDate = None,
       Liability_currency = GBP, Liability_notes = None \<rparr>"

definition networth_state_ex :: AppState where
  "networth_state_ex =
     \<lparr> AppState_currency = GBP,
       AppState_loans = [],
       AppState_assets = [asset_ex (lit (3 / 10))],
       AppState_liabilities = [liability_ex (lit (1 / 10))],
       AppState_snapshots = [] \<rparr>"

section \<open>Verified properties\<close>

subsection \<open>Loans keep distinct identities\<close>

lemma map_replace_ids:
  "map Loan_id (map (\<lambda>l. if Loan_id l = Loan_id next then next else l) loans) = map Loan_id loans"
  by (induction loans) auto

text \<open>
  C10.  If the loans of the state have pairwise distinct identities, they still do
  after \<open>upsertLoan\<close>: a loan whose identity already occurs replaces that entry in
  place (same length, every other position unchanged), a loan with a fresh identity
  is put in front; and they still do after \<open>removeLoan\<close>.
\<close>

theorem upsertLoan_removeLoan_distinct:
  assumes "distinct (map Loan_id (AppState_loans state))"
  shows "distinct (map Loan_id (AppState_loans (upsertLoan next state)))
    \<and> (Loan_id next \<in> Loan_id ` set (AppState_loans state) \<longrightarrow>
          AppState_loans (upsertLoan next state)
            = map (\<lambda>l. if Loan_id l = Loan_id next then next else l) (AppState_loans state)
        \<and> length (AppState_loans (upsertLoan next state)) = length (AppState_loans state)
        \<and> (\<forall>i < length (AppState_loans state).
              AppState_loans (upsertLoan next state) ! i
                = (if Loan_id (AppState_loans state ! i) = Loan_id next then next
                   else AppState_loans state ! i)))
    \<and> (Loan_id next \<notin> Loan_id ` set (AppState_loans state) \<longrightarrow>
          AppState_loans (upsertLoan next state) = next # AppState_loans state)
    \<and> distinct (map Loan_id (AppState_loans (removeLoan i state)))"
proof -
  have ex: "list_ex (\<lambda>l. Loan_id l = Loan_id next) (AppState_loans state)
              \<longleftrightarrow> Loan_id next \<in> Loan_id ` set (AppState_loans state)"
    unfolding list_ex_iff image_iff
    by (rule iffI; elim bexE; rule bexI [rotated], assumption, simp)
  have 1: "distinct (map Loan_id (AppState_loans (upsertLoan next state)))"
    using assms by (auto simp: upsertLoan_def Let_def ex map_replace_ids simp del: map_map)
  have 4: "distinct (map Loan_id (AppState_loans (removeLoan i state)))"
    using assms by (simp add: removeLoan_def distinct_map_filter)
  show ?thesis using 1 4 by (simp add: upsertLoan_def Let_def ex)
qed

theorem upsertLoan_removeLoan_distinct_witness:
  "distinct (map Loan_id (AppState_loans state_ex))
   \<and> AppState_loans (upsertLoan (loan_ex ''b'' ''yacht'') state_ex)
       = [loan_ex ''a'' ''car'', loan_ex ''b'' ''yacht'']
   \<and> AppState_loans (upsertLoan (loan_ex ''c'' ''bike'') state_ex)
       = [loan_ex ''c'' ''bike'', loan_ex ''a'' ''car'', loan_ex ''b'' ''boat'']
   \<and> distinct (map Loan_id (AppState_loans (upsertLoan (loan_ex ''b'' ''yacht'') state_ex)))
   \<and> AppState_loans (removeLoan ''a'' state_ex) = [loan_ex ''b'' ''boat'']"
proof -
  have d: "distinct (map Loan_id (AppState_loans state_ex))"
    by (simp add: state_ex_def loan_ex_def)
  show ?thesis
    using d upsertLoan_removeLoan_distinct [OF d, of "loan_ex ''b'' ''yacht''" "''a''"]
          upsertLoan_removeLoan_distinct [OF d, of "loan_ex ''c'' ''bike''" "''a''"]
    by (simp add: state_ex_def loan_ex_def removeLoan_def)
qed

subsection \<open>Mirroring the transactions\<close>

lemma foldl_upsert_other:
  "k \<notin> row_id ` set rows \<Longrightarrow> foldl (\<lambda>t' r. t'(row_id r \<mapsto> r)) t rows k = t k"
  by (induction rows arbitrary: t) auto

lemma foldl_upsert_mem:
  "distinct (map row_id rows) \<Longrightarrow> r \<in> set rows
     \<Longrightarrow> foldl (\<lambda>t' r. t'(row_id r \<mapsto> r)) t rows (row_id r) = Some r"
proof (induction rows arbitrary: t)
  case Nil
  then show ?case by simp
next
  case (Cons a rows)
  show ?case
  proof (cases "r = a")
    case True
    with Cons.prems have "row_id a \<notin> row_id ` set rows" by auto
    then have "foldl (\<lambda>t' r. t'(row_id r \<mapsto> r)) (t(row_id a \<mapsto> a)) rows (row_id a)
                 = (t(row_id a \<mapsto> a)) (row_id a)"
      by (rule foldl_upsert_other)
    also have "\<dots> = Some a" by simp
    finally show ?thesis unfolding True by (simp only: foldl_Cons)
  next
    case False
    with Cons show ?thesis by auto
  qed
qed

lemma payload_ids: "map row_id (map (payload_row u) items) = map tx_id items"
  by (induction items) (simp_all add: payload_row_def)

lemma rows_of_mirror:
  assumes d: "distinct (map tx_id items)"
  shows "rows_of u (apply_request (Delete_eq_user_not_in u (map tx_id items))
           (apply_request (Upsert_on_id (map (payload_row u) items)) t))
         = payload_row u ` set items"
proof -
  let ?rows = "map (payload_row u) items"
  let ?t1 = "foldl (\<lambda>t' r. t'(row_id r \<mapsto> r)) t ?rows"
  have dr: "distinct (map row_id ?rows)" using d payload_ids [of u items] by metis
  have ids: "row_id ` set ?rows = set (map tx_id items)"
    using payload_ids [of u items] by (metis list.set_map)
  show ?thesis
  proof (rule set_eqI, rule iffI)
    fix r
    assume "r \<in> rows_of u (apply_request (Delete_eq_user_not_in u (map tx_id items))
           (apply_request (Upsert_on_id ?rows) t))"
    then obtain k where k: "?t1 k = Some r" "row_user_id r = u" "k \<in> set (map tx_id items)"
      by (auto simp: rows_of_def split: option.splits if_splits)
    from k(3) obtain x where x: "x \<in> set items" "k = tx_id x" by auto
    define r' where "r' = payload_row u x"
    have r': "r' \<in> set ?rows" "row_id r' = k"
      using x by (simp_all add: r'_def payload_row_def)
    have "?t1 (row_id r') = Some r'" by (rule foldl_upsert_mem [OF dr r'(1)])
    then have "?t1 k = Some r'" unfolding r'(2) .
    with k(1) have "r = r'" by simp
    with x(1) show "r \<in> payload_row u ` set items" by (simp add: r'_def)
  next
    fix r
    assume "r \<in> payload_row u ` set items"
    then have m: "r \<in> set ?rows" by auto
    have 1: "?t1 (row_id r) = Some r" by (rule foldl_upsert_mem [OF dr m])
    from m have 2: "row_user_id r = u" by (auto simp: payload_row_def)
    from m ids have 3: "row_id r \<in> set (map tx_id items)" by blast
    show "r \<in> rows_of u (apply_request (Delete_eq_user_not_in u (map tx_id items))
           (apply_request (Upsert_on_id ?rows) t))"
      unfolding rows_of_def apply_request.simps using 1 2 3
      by (intro CollectI exI [of _ "row_id r"]) simp
  qed
qed

lemma rows_of_delete_all: "rows_of u (apply_request (Delete_eq_user u) t) = {}"
  by (auto simp: rows_of_def split: option.splits if_splits)

lemma lookup_mirror:
  assumes d: "distinct (map tx_id items)" and m: "tx \<in> set items"
  shows "apply_request (Delete_eq_user_not_in u (map tx_id items))
           (apply_request (Upsert_on_id (map (payload_row u) items)) t) (tx_id tx)
         = Some (payload_row u tx)"
proof -
  let ?rows = "map (payload_row u) items"
  have dr: "distinct (map row_id ?rows)" using d payload_ids [of u items] by metis
  have mem: "payload_row u tx \<in> set ?rows" using m by simp
  have id: "row_id (payload_row u tx) = tx_id tx" by (simp add: payload_row_def)
  have "foldl (\<lambda>t' r. t'(row_id r \<mapsto> r)) t ?rows (row_id (payload_row u tx))
          = Some (payload_row u tx)"
    by (rule foldl_upsert_mem [OF dr mem])
  then have 1: "apply_request (Upsert_on_id ?rows) t (tx_id tx) = Some (payload_row u tx)"
    unfolding id by simp
  have 2: "tx_id tx \<in> set (map tx_id items)" using m by simp
  show ?thesis unfolding apply_request.simps(3) using 1 2 by simp
qed

lemma payload_row_fields:
  "payload_row u tx =
     \<lparr> row_id = tx_id tx, row_user_id = u, row_date = tx_date tx,
       row_category = tx_category tx, row_description = tx_description tx,
       row_amount = tx_amount tx \<rparr>"
  by (simp add: payload_row_def)

text \<open>
  C8.  With a session (\<open>userId = Some u\<close>, \<open>u\<close> not empty), the requests that
  \<open>saveTransactionsToSupabase\<close> sends are: for an empty local list, the single
  delete of all rows of \<open>u\<close>; otherwise the upsert of one row per local transaction
  and then, unless the upsert was answered with an error, the delete of the rows of
  \<open>u\<close> whose identity is not in the local list.  An upsert of no rows is never sent.
  The row made from a transaction carries its identity, the user \<open>u\<close>, and its date,
  category, description and amount unchanged.  When no request is answered with an
  error and the local identities are distinct, the rows of \<open>u\<close> in the table afterwards
  are exactly the rows made from the local transactions, the table holds under the
  identity of each local transaction the row with that transaction's fields, and the
  error slot is untouched.
\<close>

theorem saveTransactions_mirror:
  assumes session: "userId = Some u" "u \<noteq> []"
  shows "(case saveTransactionsToSupabase respond userId items authError rm of (err, rm') \<Rightarrow>
      remote_log rm' = remote_log rm @
        (if items = [] then [Delete_eq_user u]
         else if respond (Upsert_on_id (map (payload_row u) items)) \<noteq> None
           then [Upsert_on_id (map (payload_row u) items)]
         else [Upsert_on_id (map (payload_row u) items),
               Delete_eq_user_not_in u (map tx_id items)])
    \<and> Upsert_on_id [] \<notin> set (drop (length (remote_log rm)) (remote_log rm'))
    \<and> ((\<forall>rq. respond rq = None) \<and> distinct (map tx_id items) \<longrightarrow>
          rows_of u (remote_rows rm') = payload_row u ` set items \<and> err = authError
          \<and> (\<forall>tx \<in> set items. remote_rows rm' (tx_id tx) =
                Some \<lparr> row_id = tx_id tx, row_user_id = u, row_date = tx_date tx,
                       row_category = tx_category tx, row_description = tx_description tx,
                       row_amount = tx_amount tx \<rparr>)))
    \<and> (\<forall>tx. payload_row u tx =
          \<lparr> row_id = tx_id tx, row_user_id = u, row_date = tx_date tx,
            row_category = tx_category tx, row_description = tx_description tx,
            row_amount = tx_amount tx \<rparr>)"
proof (cases "items = []")
  case True
  then show ?thesis using session
    by (auto simp: saveTransactionsToSupabase_def send_def rows_of_delete_all payload_row_fields
        simp del: apply_request.simps
        split: option.splits prod.splits)
next
  case False
  have look: "\<And>tx t. distinct (map tx_id items) \<Longrightarrow> tx \<in> set items \<Longrightarrow>
      apply_request (Delete_eq_user_not_in u (map tx_id items))
        (apply_request (Upsert_on_id (map (payload_row u) items)) t) (tx_id tx)
      = Some \<lparr> row_id = tx_id tx, row_user_id = u, row_date = tx_date tx,
                row_category = tx_category tx, row_description = tx_description tx,
                row_amount = tx_amount tx \<rparr>"
    using lookup_mirror [of items _ u] unfolding payload_row_fields by blast
  from False show ?thesis using session
    by (auto simp: saveTransactionsToSupabase_def send_def rows_of_mirror Let_def look
        payload_row_fields [symmetric]
        simp del: apply_request.simps
        split: option.splits prod.splits)
qed

theorem saveTransactions_mirror_witness:
  "Some ''u1'' = Some ''u1'' \<and> ''u1'' \<noteq> [] \<and> (\<forall>rq. (\<lambda>_. None :: string option) rq = None)
   \<and> distinct (map tx_id [tx_ex ''t1'' ''milk'', tx_ex ''t2'' ''bread''])
   \<and> tx_ex ''t2'' ''bread'' \<in> set [tx_ex ''t1'' ''milk'', tx_ex ''t2'' ''bread'']
   \<and> rows_of ''u1'' (remote_rows (snd (saveTransactionsToSupabase (\<lambda>_. None) (Some ''u1'')
          [tx_ex ''t1'' ''milk'', tx_ex ''t2'' ''bread''] None remote_ex)))
       = {\<lparr> row_id = ''t1'', row_user_id = ''u1'', row_date = ''2024-02-01'',
            row_category = ''Household'', row_description = ''milk'', row_amount = Fin 3 \<rparr>,
          \<lparr> row_id = ''t2'', row_user_id = ''u1'', row_date = ''2024-02-01'',
            row_category = ''Household'', row_description = ''bread'', row_amount = Fin 3 \<rparr>}
   \<and> remote_rows (snd (saveTransactionsToSupabase (\<lambda>_. None) (Some ''u1'')
          [tx_ex ''t1'' ''milk'', tx_ex ''t2'' ''bread''] None remote_ex)) ''t2''
       = Some \<lparr> row_id = ''t2'', row_user_id = ''u1'', row_date = ''2024-02-01'',
            row_category = ''Household'', row_description = ''bread'', row_amount = Fin 3 \<rparr>
   \<and> remote_log (snd (saveTransactionsToSupabase (\<lambda>_. None) (Some ''u1'')
          [tx_ex ''t1'' ''milk'', tx_ex ''t2'' ''bread''] None remote_ex))
       = [Upsert_on_id
            [\<lparr> row_id = ''t1'', row_user_id = ''u1'', row_date = ''2024-02-01'',
               row_category = ''Household'', row_description = ''milk'', row_amount = Fin 3 \<rparr>,
             \<lparr> row_id = ''t2'', row_user_id = ''u1'', row_date = ''2024-02-01'',
               row_category = ''Household'', row_description = ''bread'', row_amount = Fin 3 \<rparr>],
          Delete_eq_user_not_in ''u1'' [''t1'', ''t2'']]
   \<and> rows_of ''u1'' (remote_rows (snd (saveTransactionsToSupabase (\<lambda>_. None) (Some ''u1'')
          [] None remote_ex))) = {}
   \<and> remote_log (snd (saveTransactionsToSupabase (\<lambda>_. None) (Some ''u1'') [] None remote_ex))
       = [Delete_eq_user ''u1'']"
  using saveTransactions_mirror [where userId = "Some ''u1''" and u = "''u1''"
          and respond = "\<lambda>_. None" and authError = None and rm = remote_ex
          and items = "[tx_ex ''t1'' ''milk'', tx_ex ''t2'' ''bread'']"]
        saveTransactions_mirror [where userId = "Some ''u1''" and u = "''u1''"
          and respond = "\<lambda>_. None" and authError = None and rm = remote_ex
          and items = "[]"]
  by (simp add: tx_ex_def remote_ex_def split: prod.splits)

subsection \<open>One snapshot per month\<close>

lemma month_exp_now_ex: "month_exp now_ex = ''2024-02''"
  by (simp add: month_exp_def now_ex_def String_of_int_def padStart0_def digits.simps digit_char_def)

lemma yyyyMm_now_ex: "yyyyMm now_ex = ''2024-02''"
  by (simp add: yyyyMm_def now_ex_def String_of_int_def padStart0_def digits.simps digit_char_def)

lemma filter_replace:
  "P s \<Longrightarrow> filter P (map (\<lambda>x. if P x then s else x) xs) = replicate (length (filter P xs)) s"
  by (induction xs) auto

lemma find_None_image: "find (\<lambda>x. f x = m) xs = None \<longleftrightarrow> m \<notin> f ` set xs"
  by (auto simp: find_None_iff)

lemma filter_Nil_image: "filter (\<lambda>x. f x = m) xs = [] \<longleftrightarrow> m \<notin> f ` set xs"
  by (auto simp: filter_empty_conv)

lemma filter_not_self: "filter P (filter (\<lambda>x. \<not> P x) xs) = []"
  by (induction xs) auto

text \<open>
  C1 (as amended).  The dashboard's \<open>saveSnapshot_app\<close> removes every snapshot with
  the month and currency of the new one and puts the new one in front, so the list
  then holds exactly one snapshot for that key; the new snapshot carries the month
  of the clock, the state's currency and the three totals derived from the state.
  \<open>saveSnapshot_exp\<close> of \<^verbatim>\<open>App.tsx\<close> keys by month only and does not remove: when
  some snapshot has the month, every such snapshot is replaced where it stands;
  when none has, the new one is put in front.  If the list held at most one
  snapshot of the month, it then holds exactly the new one for it.  Its snapshot
  carries the two totals and their difference.
\<close>

theorem saveSnapshot_one_per_key:
  "(let snap = newSnapshot_app uid now state;
        snaps' = AppState_snapshots (saveSnapshot_app uid now state)
    in snaps' = snap # filter (\<lambda>s. \<not> (Snapshot_month s = yyyyMm now
                                    \<and> Snapshot_currency s = AppState_currency state))
                         (AppState_snapshots state)
     \<and> filter (\<lambda>s. Snapshot_month s = yyyyMm now
                    \<and> Snapshot_currency s = AppState_currency state) snaps' = [snap]
     \<and> Snapshot_month snap = yyyyMm now
     \<and> Snapshot_currency snap = AppState_currency state
     \<and> Snapshot_assetsTotal snap = assetsTotal_app state
     \<and> Snapshot_liabilitiesTotal snap = liabilitiesTotal_app state
     \<and> Snapshot_netWorth snap = netWorth_app state)
 \<and> (let snap = newSnapshot_exp uid' now' state';
        snaps = ExpAppState_snapshots state';
        snaps' = ExpAppState_snapshots (saveSnapshot_exp uid' now' state');
        m = month_exp now'
    in (m \<in> ExpSnapshot_month ` set snaps \<longrightarrow>
          snaps' = map (\<lambda>item. if ExpSnapshot_month item = m then snap else item) snaps)
     \<and> (m \<notin> ExpSnapshot_month ` set snaps \<longrightarrow> snaps' = snap # snaps)
     \<and> (length (filter (\<lambda>item. ExpSnapshot_month item = m) snaps) \<le> 1 \<longrightarrow>
          filter (\<lambda>item. ExpSnapshot_month item = m) snaps' = [snap])
     \<and> ExpSnapshot_month snap = m
     \<and> ExpSnapshot_assetsTotal snap = assetsTotal_exp state'
     \<and> ExpSnapshot_liabilitiesTotal snap = liabilitiesTotal_exp state'
     \<and> ExpSnapshot_netWorth snap = fsub (assetsTotal_exp state') (liabilitiesTotal_exp state'))"
proof -
  let ?snap = "newSnapshot_app uid now state"
  let ?P = "\<lambda>s. Snapshot_month s = yyyyMm now \<and> Snapshot_currency s = AppState_currency state"
  have fields: "Snapshot_month ?snap = yyyyMm now" "Snapshot_currency ?snap = AppState_currency state"
    "Snapshot_assetsTotal ?snap = assetsTotal_app state"
    "Snapshot_liabilitiesTotal ?snap = liabilitiesTotal_app state"
    "Snapshot_netWorth ?snap = netWorth_app state"
    by (simp_all add: newSnapshot_app_def)
  have a1: "AppState_snapshots (saveSnapshot_app uid now state)
              = ?snap # filter (\<lambda>s. \<not> ?P s) (AppState_snapshots state)"
    by (simp add: saveSnapshot_app_def Let_def fields)
  have a2: "filter ?P (AppState_snapshots (saveSnapshot_app uid now state)) = [?snap]"
    unfolding a1 using filter_not_self [of ?P] by (simp add: fields)
  let ?e = "newSnapshot_exp uid' now' state'"
  let ?m = "month_exp now'"
  let ?Q = "\<lambda>item. ExpSnapshot_month item = ?m"
  let ?xs = "ExpAppState_snapshots state'"
  let ?xs' = "ExpAppState_snapshots (saveSnapshot_exp uid' now' state')"
  have efields: "ExpSnapshot_month ?e = ?m" "ExpSnapshot_assetsTotal ?e = assetsTotal_exp state'"
    "ExpSnapshot_liabilitiesTotal ?e = liabilitiesTotal_exp state'"
    "ExpSnapshot_netWorth ?e = fsub (assetsTotal_exp state') (liabilitiesTotal_exp state')"
    by (simp_all add: newSnapshot_exp_def defaultSnapshot_def)
  have found: "find ?Q ?xs = None \<longleftrightarrow> ?m \<notin> ExpSnapshot_month ` set ?xs"
    by (rule find_None_image)
  have b1: "?m \<in> ExpSnapshot_month ` set ?xs \<Longrightarrow> ?xs' = map (\<lambda>item. if ?Q item then ?e else item) ?xs"
    using found by (cases "find ?Q ?xs") (simp_all add: saveSnapshot_exp_def Let_def)
  have b2: "?m \<notin> ExpSnapshot_month ` set ?xs \<Longrightarrow> ?xs' = ?e # ?xs"
    using found by (simp add: saveSnapshot_exp_def Let_def)
  have b3: "filter ?Q ?xs' = [?e]" if le: "length (filter ?Q ?xs) \<le> 1"
  proof (cases "?m \<in> ExpSnapshot_month ` set ?xs")
    case True
    then have "filter ?Q ?xs \<noteq> []" by (simp add: filter_Nil_image)
    with le have "length (filter ?Q ?xs) = 1"
      by (cases "filter ?Q ?xs") auto
    then show ?thesis
      using filter_replace [of ?Q ?e ?xs] efields(1) b1 [OF True] by simp
  next
    case False
    then have "filter ?Q ?xs = []" by (simp add: filter_Nil_image)
    then show ?thesis using b2 [OF False] efields(1) by simp
  qed
  show ?thesis
    unfolding Let_def using a1 a2 fields b1 b2 b3 efields by blast
qed

theorem saveSnapshot_one_per_key_witness:
  "AppState_snapshots (saveSnapshot_app ''new'' now_ex state_snap_ex)
     = [newSnapshot_app ''new'' now_ex state_snap_ex,
        snapshot_ex ''s1'' ''2024-01'' GBP, snapshot_ex ''s3'' ''2024-02'' EUR]
   \<and> ''2024-02'' \<in> ExpSnapshot_month ` set (ExpAppState_snapshots exp_state_ex)
   \<and> length (filter (\<lambda>item. ExpSnapshot_month item = ''2024-02'')
               (ExpAppState_snapshots exp_state_ex)) \<le> 1
   \<and> ExpAppState_snapshots (saveSnapshot_exp ''new'' now_ex exp_state_ex)
       = [exp_snapshot_ex ''s1'' ''2024-01'', newSnapshot_exp ''new'' now_ex exp_state_ex]
   \<and> filter (\<lambda>item. ExpSnapshot_month item = ''2024-02'')
        (ExpAppState_snapshots (saveSnapshot_exp ''new'' now_ex exp_state_ex))
       = [newSnapshot_exp ''new'' now_ex exp_state_ex]
   \<and> ''2024-02'' \<notin> ExpSnapshot_month ` set (ExpAppState_snapshots
         (exp_state_ex\<lparr> ExpAppState_snapshots := [exp_snapshot_ex ''s1'' ''2024-01''] \<rparr>))
   \<and> ExpAppState_snapshots (saveSnapshot_exp ''new'' now_ex
         (exp_state_ex\<lparr> ExpAppState_snapshots := [exp_snapshot_ex ''s1'' ''2024-01''] \<rparr>))
       = [newSnapshot_exp ''new'' now_ex
            (exp_state_ex\<lparr> ExpAppState_snapshots := [exp_snapshot_ex ''s1'' ''2024-01''] \<rparr>),
          exp_snapshot_ex ''s1'' ''2024-01'']"
  using saveSnapshot_one_per_key [of "''new''" now_ex state_snap_ex "''new''" now_ex exp_state_ex]
        saveSnapshot_one_per_key [of "''new''" now_ex state_snap_ex "''new''" now_ex
          "exp_state_ex\<lparr> ExpAppState_snapshots := [exp_snapshot_ex ''s1'' ''2024-01''] \<rparr>"]
  by (simp add: Let_def month_exp_now_ex yyyyMm_now_ex state_snap_ex_def exp_state_ex_def
        snapshot_ex_def exp_snapshot_ex_def)

text \<open>
  C1 as stated fails for \<^verbatim>\<open>App.tsx\<close>: with snapshots for January and February (in
  this order) and the clock in February, the result is not the new snapshot in
  front of the others; the February entry is replaced in second position.
\<close>

theorem saveSnapshot_prepend_counterexample:
  "ExpAppState_snapshots (saveSnapshot_exp ''new'' now_ex exp_state_ex)
     \<noteq> newSnapshot_exp ''new'' now_ex exp_state_ex
         # filter (\<lambda>item. ExpSnapshot_month item \<noteq> month_exp now_ex)
             (ExpAppState_snapshots exp_state_ex)"
  by (simp add: saveSnapshot_exp_def Let_def month_exp_now_ex exp_state_ex_def
        exp_snapshot_ex_def newSnapshot_exp_def defaultSnapshot_def)

subsection \<open>Loading the persisted state\<close>





subsection \<open>Rounding to the nearest double\<close>

text \<open>The equations that evaluate the arithmetic on numerals.\<close>

lemmas float_eval =
  rnd_def ilog2_def pow2_def round_even_def bitlen.simps Let_def lit_def EPSILON_def
  round2_def fsub_def power_divide

lemma round2_zero: "round2 (Fin 0) = Fin 0"
  by (simp add: float_eval)

lemma pow2_powi: "pow2 e = 2 powi e"
  by (simp add: pow2_def power_int_def field_simps)

lemma pow2_pos: "0 < pow2 e"
  by (simp add: pow2_powi zero_less_power_int)

lemma pow2_add: "pow2 (a + b) = pow2 a * pow2 b"
  by (simp add: pow2_powi power_int_add)

lemma pow2_diff: "pow2 (a - b) = pow2 a / pow2 b"
  by (simp add: pow2_powi power_int_diff)

lemma pow2_mono: "a \<le> b \<Longrightarrow> pow2 a \<le> pow2 b"
  by (simp add: pow2_powi power_int_increasing)

lemma pow2_strict_mono: "a < b \<Longrightarrow> pow2 a < pow2 b"
  by (simp add: pow2_powi power_int_strict_increasing)

lemma pow2_less_iff: "pow2 a < pow2 b \<longleftrightarrow> a < b"
  using pow2_strict_mono [of a b] pow2_mono [of b a] by (cases "a < b") auto

lemma pow2_nat: "0 \<le> e \<Longrightarrow> pow2 e = 2 ^ nat e"
  by (simp add: pow2_def)

lemma pow2_suc: "pow2 (e + 1) = 2 * pow2 e"
  using pow2_add [of e 1] by (simp add: pow2_def)

lemma pow2_53: "pow2 53 = 2 ^ 53"
  by (simp add: pow2_def)

lemma pow2_shift53: "pow2 (k + 1) = 2 ^ 53 * pow2 (k - 52)"
proof -
  have "pow2 (k + 1) = pow2 (53 + (k - 52))" by (rule arg_cong [of _ _ pow2]) simp
  also have "\<dots> = pow2 53 * pow2 (k - 52)" by (rule pow2_add)
  finally show ?thesis by (simp only: pow2_53)
qed

lemma pow2_mult_53: "2 ^ 53 * pow2 e = pow2 (e + 53)"
proof -
  have "pow2 (e + 53) = pow2 e * pow2 53" by (rule pow2_add)
  then show ?thesis by (simp only: pow2_53 mult.commute)
qed

lemma bitlen_pos: "0 < n \<Longrightarrow> 0 < bitlen n"
  by (subst bitlen.simps) simp

lemma bitlen_bounds: "0 < n \<Longrightarrow> 2 ^ (bitlen n - 1) \<le> n \<and> n < 2 ^ bitlen n"
proof (induction n rule: bitlen.induct)
  case (1 n)
  have unfold: "bitlen n = Suc (bitlen (n div 2))"
    using "1.prems" by (subst bitlen.simps) simp
  show ?case
  proof (cases "n = 1")
    case True
    have "bitlen (0::int) = 0" by (subst bitlen.simps) simp
    with True unfold show ?thesis by simp
  next
    case False
    with "1.prems" have h: "0 < n div 2" by presburger
    from "1.prems" have "\<not> n \<le> 0" by simp
    from "1.IH" [OF this h]
    have ih: "2 ^ (bitlen (n div 2) - 1) \<le> n div 2" "n div 2 < 2 ^ bitlen (n div 2)"
      by simp_all
    from bitlen_pos [OF h] obtain k where k: "bitlen (n div 2) = Suc k"
      by (cases "bitlen (n div 2)") auto
    have lo: "(2::int) ^ (bitlen n - 1) \<le> n"
    proof -
      have "(2::int) ^ (bitlen n - 1) = 2 * 2 ^ k" by (simp add: unfold k)
      also have "\<dots> \<le> 2 * (n div 2)" using ih(1) by (simp add: k)
      also have "\<dots> \<le> n" by presburger
      finally show ?thesis .
    qed
    have hi: "n < 2 ^ bitlen n"
    proof -
      have "n < 2 * (n div 2 + 1)" by presburger
      also have "\<dots> \<le> 2 * 2 ^ bitlen (n div 2)" using ih(2) by simp
      also have "\<dots> = 2 ^ bitlen n" by (simp add: unfold)
      finally show ?thesis .
    qed
    from lo hi show ?thesis ..
  qed
qed

lemma bitlen_pow2:
  assumes "0 < n"
  shows "pow2 (int (bitlen n) - 1) \<le> of_int n" and "of_int n < pow2 (int (bitlen n))"
proof -
  from bitlen_pos [OF assms] have p: "0 \<le> int (bitlen n) - 1" by simp
  have n1: "nat (int (bitlen n) - 1) = bitlen n - 1" by simp
  from bitlen_bounds [OF assms]
  have b: "2 ^ (bitlen n - 1) \<le> n" "n < 2 ^ bitlen n" by simp_all
  have "pow2 (int (bitlen n) - 1) = of_int (2 ^ (bitlen n - 1))"
    by (simp add: pow2_nat [OF p] n1)
  also have "\<dots> \<le> of_int n" using b(1) by (simp only: of_int_le_iff)
  finally show "pow2 (int (bitlen n) - 1) \<le> of_int n" .
  have "(of_int n :: real) < of_int (2 ^ bitlen n)" using b(2) by (simp only: of_int_less_iff)
  also have "\<dots> = pow2 (int (bitlen n))" by (simp add: pow2_nat)
  finally show "of_int n < pow2 (int (bitlen n))" .
qed

lemma ilog2_bounds:
  assumes "q \<noteq> 0"
  shows "pow2 (ilog2 q) \<le> \<bar>q\<bar>" and "\<bar>q\<bar> < pow2 (ilog2 q + 1)"
proof -
  have "pow2 (ilog2 q) \<le> \<bar>q\<bar> \<and> \<bar>q\<bar> < pow2 (ilog2 q + 1)"
  proof (cases "1 \<le> \<bar>q\<bar>")
    case True
    define n where "n = \<lfloor>\<bar>q\<bar>\<rfloor>"
    have npos: "0 < n" using True by (simp add: n_def)
    have il: "ilog2 q = int (bitlen n) - 1" using True by (simp add: ilog2_def n_def)
    have "pow2 (int (bitlen n) - 1) \<le> of_int n" by (rule bitlen_pow2 (1) [OF npos])
    also have "\<dots> \<le> \<bar>q\<bar>" by (simp add: n_def)
    finally have lo: "pow2 (ilog2 q) \<le> \<bar>q\<bar>" by (simp add: il)
    have "n + 1 \<le> 2 ^ bitlen n" using bitlen_bounds [OF npos] by simp
    then have "(of_int (n + 1) :: real) \<le> of_int (2 ^ bitlen n)" by (simp only: of_int_le_iff)
    then have "of_int n + 1 \<le> pow2 (int (bitlen n))" by (simp add: pow2_nat)
    moreover have "\<bar>q\<bar> < of_int n + 1" by (simp add: n_def)
    ultimately have "\<bar>q\<bar> < pow2 (int (bitlen n))" by linarith
    then have hi: "\<bar>q\<bar> < pow2 (ilog2 q + 1)" by (simp add: il)
    from lo hi show ?thesis ..
  next
    case False
    define a where "a = \<bar>q\<bar>"
    have a: "0 < a" "a < 1" using assms False by (simp_all add: a_def)
    define n where "n = \<lfloor>1 / a\<rfloor>"
    have "1 \<le> 1 / a" using a by simp
    then have npos: "0 < n" by (simp add: n_def)
    define l where "l = int (bitlen n)"
    have n_le: "of_int n \<le> 1 / a" by (simp add: n_def)
    have n_gt: "1 / a < of_int n + 1" by (simp add: n_def)
    have lo_n: "pow2 (l - 1) \<le> of_int n" unfolding l_def by (rule bitlen_pow2 (1) [OF npos])
    have "n + 1 \<le> 2 ^ bitlen n" using bitlen_bounds [OF npos] by simp
    then have "(of_int (n + 1) :: real) \<le> of_int (2 ^ bitlen n)" by (simp only: of_int_le_iff)
    then have hi_n: "of_int n + 1 \<le> pow2 l" by (simp add: pow2_nat l_def)
    \<comment> \<open>\<open>2 ^ (l - 1) \<le> 1 / a < 2 ^ l\<close>\<close>
    have A: "pow2 (l - 1) \<le> 1 / a" using lo_n n_le by linarith
    have B: "1 / a < pow2 l" using hi_n n_gt by linarith
    have upper: "a \<le> pow2 (1 - l)"
    proof -
      have "pow2 (l - 1) * a \<le> 1" using A a by (simp add: field_simps)
      moreover have "pow2 (1 - l) * pow2 (l - 1) = 1"
        using pow2_add [of "1 - l" "l - 1"] by (simp add: pow2_def)
      ultimately have "pow2 (1 - l) * (pow2 (l - 1) * a) \<le> pow2 (1 - l)"
        using pow2_pos [of "1 - l"] by (simp add: mult_left_le)
      then show ?thesis using \<open>pow2 (1 - l) * pow2 (l - 1) = 1\<close>
        by (simp add: mult.assoc [symmetric])
    qed
    have lower: "pow2 (- l) < a"
    proof -
      have "1 < pow2 l * a" using B a by (simp add: field_simps)
      moreover have e: "pow2 (- l) * pow2 l = 1"
        using pow2_add [of "- l" l] by (simp add: pow2_def)
      ultimately have "pow2 (- l) * 1 < pow2 (- l) * (pow2 l * a)"
        using pow2_pos [of "- l"] by (simp only: mult_less_cancel_left_pos)
      then show ?thesis using e by (simp add: mult.assoc [symmetric])
    qed
    have il: "ilog2 q = (if pow2 (1 - l) \<le> a then 1 - l else - l)"
      using False by (simp add: ilog2_def a_def n_def l_def Let_def)
    show ?thesis
    proof (cases "pow2 (1 - l) \<le> a")
      case True
      then have "ilog2 q = 1 - l" using il by simp
      moreover have "a < pow2 (1 - l + 1)"
        using upper pow2_strict_mono [of "1 - l" "1 - l + 1"] by simp
      ultimately show ?thesis using True by (simp add: a_def)
    next
      case False
      then have "ilog2 q = - l" using il by simp
      moreover have "a < pow2 (- l + 1)" using False by (simp add: add.commute)
      ultimately show ?thesis using lower by (simp add: a_def)
    qed
  qed
  then show "pow2 (ilog2 q) \<le> \<bar>q\<bar>" and "\<bar>q\<bar> < pow2 (ilog2 q + 1)" by simp_all
qed

lemma ilog2_unique:
  assumes "pow2 k \<le> \<bar>q\<bar>" "\<bar>q\<bar> < pow2 (k + 1)"
  shows "ilog2 q = k"
proof -
  have q: "q \<noteq> 0" using assms(1) pow2_pos [of k] by auto
  note b = ilog2_bounds [OF q]
  have "pow2 k < pow2 (ilog2 q + 1)" using assms(1) b(2) by linarith
  then have 1: "k < ilog2 q + 1" by (simp only: pow2_less_iff)
  have "pow2 (ilog2 q) < pow2 (k + 1)" using assms(2) b(1) by linarith
  then have 2: "ilog2 q < k + 1" by (simp only: pow2_less_iff)
  from 1 2 show ?thesis by simp
qed

lemma round_even_of_int: "round_even (of_int n) = n"
  by (simp add: round_even_def)

lemma round_even_err: "\<bar>of_int (round_even x) - x\<bar> \<le> 1 / 2"
proof -
  have "of_int \<lfloor>x\<rfloor> \<le> x" "x < of_int \<lfloor>x\<rfloor> + 1" by linarith+
  then show ?thesis by (simp add: round_even_def Let_def)
qed

lemma round_even_nonneg: "0 \<le> x \<Longrightarrow> 0 \<le> round_even x"
proof -
  assume "0 \<le> x"
  then have "0 \<le> \<lfloor>x\<rfloor>" by simp
  then show ?thesis by (simp add: round_even_def Let_def)
qed

lemma rnd_unfold:
  assumes "q \<noteq> 0"
  shows "rnd q =
    (let e = max (- 1074) (ilog2 q - 52);
         r = of_int (round_even (\<bar>q\<bar> / pow2 e)) * pow2 e
     in if pow2 1024 \<le> r then (if 0 < q then PosInf else NegInf)
        else Fin (if 0 < q then r else - r))"
  using assms by (simp add: rnd_def)

text \<open>A significand below \<open>2\<^sup>5\<^sup>3\<close> with an exponent in range is a double.\<close>

lemma rnd_representable_pos:
  assumes m: "0 < m" "m < 2 ^ 53" and e: "- 1074 \<le> e"
    and fin: "of_int m * pow2 e < pow2 1024"
  shows "rnd (of_int m * pow2 e) = Fin (of_int m * pow2 e)"
proof -
  define r :: real where "r = of_int m * pow2 e"
  have rpos: "0 < r" using m(1) pow2_pos [of e] by (simp add: r_def)
  define k where "k = ilog2 r"
  define e' where "e' = max (- 1074) (k - 52)"
  have "r < 2 ^ 53 * pow2 e"
  proof -
    have "(of_int m :: real) < of_int (2 ^ 53)" using m(2) by (simp only: of_int_less_iff)
    then show ?thesis using pow2_pos [of e] by (simp add: r_def)
  qed
  also have "\<dots> = pow2 (e + 53)" by (rule pow2_mult_53)
  finally have "r < pow2 (e + 53)" .
  moreover have "pow2 k \<le> r" using ilog2_bounds(1) [of r] rpos by (simp add: k_def)
  ultimately have "pow2 k < pow2 (e + 53)" by linarith
  then have "k < e + 53" by (simp only: pow2_less_iff)
  then have le: "e' \<le> e" using e by (simp add: e'_def)
  define j where "j = nat (e - e')"
  have spl: "pow2 e = 2 ^ j * pow2 e'"
  proof -
    have "pow2 e = pow2 ((e - e') + e')" by simp
    also have "\<dots> = pow2 (e - e') * pow2 e'" by (rule pow2_add)
    also have "pow2 (e - e') = 2 ^ j" using le by (simp add: pow2_nat j_def)
    finally show ?thesis .
  qed
  have quot: "\<bar>r\<bar> / pow2 e' = of_int (m * 2 ^ j)"
    using rpos pow2_pos [of e'] by (simp add: r_def spl)
  have bk: "of_int (m * 2 ^ j) * pow2 e' = r"
    by (simp add: r_def spl)
  have rne: "r \<noteq> 0" using rpos by simp
  have fin': "\<not> pow2 1024 \<le> r" using fin by (simp add: r_def)
  have "rnd r = Fin r"
    unfolding rnd_unfold [OF rne] Let_def k_def [symmetric] e'_def [symmetric] quot
      round_even_of_int bk
    using rpos fin' by simp
  then show ?thesis by (simp only: r_def)
qed

lemma ilog2_neg: "ilog2 (- q) = ilog2 q"
  by (simp add: ilog2_def)

lemma rnd_neg: "rnd (- q) = fneg (rnd q)"
proof (cases "q = 0")
  case True
  then show ?thesis by (simp add: rnd_def)
next
  case False
  then have n: "- q \<noteq> 0" by simp
  show ?thesis
  proof (cases "0 < q")
    case True
    then show ?thesis
      unfolding rnd_unfold [OF False] rnd_unfold [OF n] ilog2_neg abs_minus_cancel Let_def
      by simp
  next
    case neg: False
    with False have "0 < - q" by simp
    with neg show ?thesis
      unfolding rnd_unfold [OF False] rnd_unfold [OF n] ilog2_neg abs_minus_cancel Let_def
      by simp
  qed
qed

lemma rnd_representable:
  assumes m: "0 \<le> m" "m \<le> 2 ^ 53" and e: "- 1074 \<le> e"
    and fin: "of_int m * pow2 e < pow2 1024"
  shows "rnd (of_int m * pow2 e) = Fin (of_int m * pow2 e)"
proof -
  consider "m = 0" | "0 < m" "m < 2 ^ 53" | "m = 2 ^ 53" using m by linarith
  then show ?thesis
  proof cases
    case 1
    then show ?thesis by (simp add: rnd_def)
  next
    case 2
    then show ?thesis using e fin by (rule rnd_representable_pos)
  next
    case 3
    have eq: "of_int m * pow2 e = of_int (2 ^ 52) * pow2 (e + 1)"
      by (simp add: 3 pow2_suc)
    have "rnd (of_int (2 ^ 52) * pow2 (e + 1)) = Fin (of_int (2 ^ 52) * pow2 (e + 1))"
    proof (rule rnd_representable_pos)
      show "(0::int) < 2 ^ 52" by simp
      show "(2::int) ^ 52 < 2 ^ 53" by simp
      show "- 1074 \<le> e + 1" using e by simp
      show "of_int (2 ^ 52) * pow2 (e + 1) < pow2 1024" using fin unfolding eq .
    qed
    then show ?thesis unfolding eq .
  qed
qed

text \<open>The significand that \<open>rnd\<close> computes is at most \<open>2\<^sup>5\<^sup>3\<close>.\<close>

lemma significand_bound:
  assumes "q \<noteq> 0"
  defines "e \<equiv> max (- 1074) (ilog2 q - 52)"
  shows "0 \<le> round_even (\<bar>q\<bar> / pow2 e)" and "round_even (\<bar>q\<bar> / pow2 e) \<le> 2 ^ 53"
proof -
  let ?x = "\<bar>q\<bar> / pow2 e"
  have x0: "0 \<le> ?x" using pow2_pos [of e] by simp
  then show "0 \<le> round_even ?x" by (rule round_even_nonneg)
  have "ilog2 q - 52 \<le> e" by (simp add: e_def)
  then have "pow2 (ilog2 q - 52) \<le> pow2 e" by (rule pow2_mono)
  moreover have "\<bar>q\<bar> < pow2 (ilog2 q + 1)" by (rule ilog2_bounds(2) [OF assms(1)])
  moreover have "pow2 (ilog2 q + 1) = 2 ^ 53 * pow2 (ilog2 q - 52)"
    by (rule pow2_shift53)
  moreover have "(2::real) ^ 53 * pow2 (ilog2 q - 52) \<le> 2 ^ 53 * pow2 e"
    using \<open>pow2 (ilog2 q - 52) \<le> pow2 e\<close> by (intro mult_left_mono) simp_all
  ultimately have "\<bar>q\<bar> < 2 ^ 53 * pow2 e" by linarith
  then have "?x < 2 ^ 53" using pow2_pos [of e] by (simp add: field_simps)
  moreover have "\<bar>of_int (round_even ?x) - ?x\<bar> \<le> 1 / 2" by (rule round_even_err)
  ultimately have "of_int (round_even ?x) < (2::real) ^ 53 + 1" by linarith
  moreover have "(2::real) ^ 53 + 1 = of_int (2 ^ 53 + 1)" by simp
  ultimately have "(of_int (round_even ?x) :: real) < of_int (2 ^ 53 + 1)" by (simp only:)
  then have "round_even ?x < 2 ^ 53 + 1" by (simp only: of_int_less_iff)
  then show "round_even ?x \<le> 2 ^ 53" by simp
qed

lemma rnd_idem:
  assumes "rnd q = Fin r"
  shows "rnd r = Fin r"
proof (cases "q = 0")
  case True
  with assms show ?thesis by (simp add: rnd_def)
next
  case False
  define e where "e = max (- 1074) (ilog2 q - 52)"
  define m where "m = round_even (\<bar>q\<bar> / pow2 e)"
  note sb = significand_bound [OF False, folded e_def m_def]
  have e: "- 1074 \<le> e" by (simp add: e_def)
  from assms have "(if pow2 1024 \<le> of_int m * pow2 e then (if 0 < q then PosInf else NegInf)
        else Fin (if 0 < q then of_int m * pow2 e else - (of_int m * pow2 e))) = Fin r"
    unfolding rnd_unfold [OF False] Let_def e_def [symmetric] m_def [symmetric] .
  then have fin: "of_int m * pow2 e < pow2 1024"
    and r: "r = (if 0 < q then of_int m * pow2 e else - (of_int m * pow2 e))"
    by (auto split: if_splits)
  have rep: "rnd (of_int m * pow2 e) = Fin (of_int m * pow2 e)"
    using sb e fin by (rule rnd_representable)
  show ?thesis
  proof (cases "0 < q")
    case True
    with r rep show ?thesis by simp
  next
    case False
    with r have "r = - (of_int m * pow2 e)" by simp
    then show ?thesis using rep by (simp add: rnd_neg)
  qed
qed

text \<open>In the normal range a rounding has relative error at most \<open>2\<^sup>-\<^sup>5\<^sup>3\<close>.\<close>

lemma rnd_error:
  assumes lo: "pow2 (- 1022) \<le> \<bar>q\<bar>" and hi: "\<bar>q\<bar> < pow2 1023"
  shows "\<exists>r. rnd q = Fin r \<and> \<bar>r - q\<bar> \<le> \<bar>q\<bar> * pow2 (- 53)"
proof -
  have q: "q \<noteq> 0" using lo pow2_pos [of "- 1022"] by auto
  define k where "k = ilog2 q"
  note b = ilog2_bounds [OF q, folded k_def]
  have "pow2 (- 1022) < pow2 (k + 1)" using lo b(2) by linarith
  then have k1: "- 1022 < k + 1" by (simp only: pow2_less_iff)
  have "pow2 k < pow2 1023" using hi b(1) by linarith
  then have k2: "k < 1023" by (simp only: pow2_less_iff)
  define e where "e = k - 52"
  have emax: "max (- 1074) (ilog2 q - 52) = e" using k1 by (simp add: e_def k_def)
  define m where "m = round_even (\<bar>q\<bar> / pow2 e)"
  note sb = significand_bound [OF q, unfolded emax, folded m_def]
  have pe: "0 < pow2 e" by (rule pow2_pos)
  have "(of_int m :: real) \<le> of_int (2 ^ 53)" using sb(2) by (simp only: of_int_le_iff)
  then have "of_int m * pow2 e \<le> 2 ^ 53 * pow2 e" using pe by simp
  also have "2 ^ 53 * pow2 e = pow2 (k + 1)"
    unfolding e_def by (rule pow2_shift53 [symmetric])
  also have "pow2 (k + 1) \<le> pow2 1023" using k2 by (intro pow2_mono) simp
  also have "pow2 1023 < pow2 1024" by (intro pow2_strict_mono) simp
  finally have fin: "of_int m * pow2 e < pow2 1024" .
  define r where "r = (if 0 < q then of_int m * pow2 e else - (of_int m * pow2 e))"
  have rr: "rnd q = Fin r"
    unfolding rnd_unfold [OF q] Let_def emax m_def [symmetric] r_def using fin by simp
  have err: "\<bar>of_int m - \<bar>q\<bar> / pow2 e\<bar> \<le> 1 / 2" unfolding m_def by (rule round_even_err)
  have "\<bar>of_int m * pow2 e - \<bar>q\<bar>\<bar> = \<bar>of_int m - \<bar>q\<bar> / pow2 e\<bar> * pow2 e"
  proof -
    have "of_int m * pow2 e - \<bar>q\<bar> = (of_int m - \<bar>q\<bar> / pow2 e) * pow2 e"
      using pe by (simp add: field_simps)
    then show ?thesis using pe by (simp add: abs_mult)
  qed
  also have "\<dots> \<le> (1 / 2) * pow2 e" using err pe by (simp only: mult_right_mono less_imp_le)
  also have "(1 / 2) * pow2 e = pow2 k * pow2 (- 53)"
  proof -
    have "pow2 e = 2 * pow2 (k - 53)" using pow2_suc [of "k - 53"] by (simp add: e_def)
    moreover have "pow2 (k - 53) = pow2 k * pow2 (- 53)" using pow2_add [of k "- 53"] by simp
    ultimately show ?thesis by simp
  qed
  also have "\<dots> \<le> \<bar>q\<bar> * pow2 (- 53)" using b(1) pow2_pos [of "- 53"] by simp
  finally have "\<bar>of_int m * pow2 e - \<bar>q\<bar>\<bar> \<le> \<bar>q\<bar> * pow2 (- 53)" .
  moreover have "\<bar>r - q\<bar> = \<bar>of_int m * pow2 e - \<bar>q\<bar>\<bar>"
    using q by (auto simp: r_def)
  ultimately show ?thesis using rr by auto
qed

subsection \<open>Rounding to two decimals\<close>

lemma pow2_m53: "pow2 (- 53) = 1 / 9007199254740992"
  by (simp add: pow2_def)

lemma pow2_m52: "pow2 (- 52) = 1 / 4503599627370496"
  by (simp add: pow2_def)

lemma pow2_m1022_le: "pow2 (- 1022) \<le> 1 / 128"
proof -
  have "pow2 (- 1022) \<le> pow2 (- 7)" by (rule pow2_mono) simp
  also have "pow2 (- 7) = 1 / 128" by (simp add: pow2_def)
  finally show ?thesis .
qed

lemma pow2_1023_ge: "2000000000000000 < pow2 1023"
proof -
  have "(2000000000000000::real) < pow2 60" by (simp add: pow2_def)
  also have "pow2 60 \<le> pow2 1023" by (rule pow2_mono) simp
  finally show ?thesis .
qed

lemma rnd_error_num:
  assumes "1 / 128 \<le> \<bar>q\<bar>" "\<bar>q\<bar> \<le> 2000000000000000"
  shows "\<exists>r. rnd q = Fin r \<and> \<bar>r - q\<bar> \<le> \<bar>q\<bar> / 9007199254740992"
proof -
  have "pow2 (- 1022) \<le> \<bar>q\<bar>" using assms(1) pow2_m1022_le by linarith
  moreover have "\<bar>q\<bar> < pow2 1023" using assms(2) pow2_1023_ge by linarith
  ultimately obtain r where "rnd q = Fin r" "\<bar>r - q\<bar> \<le> \<bar>q\<bar> * pow2 (- 53)"
    using rnd_error by blast
  then show ?thesis by (auto simp: pow2_m53)
qed

text \<open>
  A number of cents \<open>k\<close> up to \<open>1.1 \<times> 10\<^sup>1\<^sup>5\<close>: the double nearest to \<open>k / 100\<close> is a fixed
  point of \<open>round2\<close>.
\<close>

lemma cents_fixed:
  assumes k: "\<bar>k\<bar> \<le> 1100000000000000" and v: "rnd (of_int k / 100) = Fin v"
  shows "round2 (Fin v) = Fin v"
proof (cases "k = 0")
  case True
  with v have "v = 0" by (simp add: rnd_def)
  then show ?thesis by (simp add: round2_zero)
next
  case False
  define c :: real where "c = of_int k / 100"
  have "1 \<le> \<bar>k\<bar>" using False by simp
  then have "(1::real) \<le> of_int \<bar>k\<bar>" by (simp only: of_int_1_le_iff)
  then have c_lo: "1 / 100 \<le> \<bar>c\<bar>" by (simp add: c_def)
  have "(of_int \<bar>k\<bar> :: real) \<le> of_int (1100000000000000)" using k by (simp only: of_int_le_iff)
  then have c_hi: "\<bar>c\<bar> \<le> 11000000000000" by (simp add: c_def)
  \<comment> \<open>the quotient\<close>
  have "\<exists>r. rnd c = Fin r \<and> \<bar>r - c\<bar> \<le> \<bar>c\<bar> / 9007199254740992"
    using c_lo c_hi by (intro rnd_error_num) simp_all
  with v have v_err: "\<bar>v - c\<bar> \<le> \<bar>c\<bar> / 9007199254740992" by (auto simp: c_def)
  have v_lo: "1 / 101 \<le> \<bar>v\<bar>" using v_err c_lo by linarith
  have v_hi: "\<bar>v\<bar> \<le> 11000000000001" using v_err c_hi by linarith
  have v_c: "\<bar>v - c\<bar> \<le> 1 / 800" using v_err c_hi by linarith
  \<comment> \<open>adding the epsilon\<close>
  define s where "s = v + pow2 (- 52)"
  have s_v: "\<bar>s - v\<bar> = 1 / 4503599627370496" by (simp add: s_def pow2_m52)
  have s_lo: "1 / 102 \<le> \<bar>s\<bar>" using s_v v_lo by linarith
  have s_hi: "\<bar>s\<bar> \<le> 11000000000002" using s_v v_hi by linarith
  have "\<exists>r. rnd s = Fin r \<and> \<bar>r - s\<bar> \<le> \<bar>s\<bar> / 9007199254740992"
    using s_lo s_hi by (intro rnd_error_num) simp_all
  then obtain s1 where s1: "rnd s = Fin s1" and s1_err: "\<bar>s1 - s\<bar> \<le> \<bar>s\<bar> / 9007199254740992"
    by blast
  have s1_lo: "1 / 103 \<le> \<bar>s1\<bar>" using s1_err s_lo by linarith
  have s1_hi: "\<bar>s1\<bar> \<le> 11000000000003" using s1_err s_hi by linarith
  have s1_s: "\<bar>s1 - s\<bar> \<le> 1 / 800" using s1_err s_hi by linarith
  \<comment> \<open>the product\<close>
  define p where "p = s1 * 100"
  have p_lo: "1 / 128 \<le> \<bar>p\<bar>" using s1_lo by (simp add: p_def)
  have p_hi: "\<bar>p\<bar> \<le> 1100000000000300" using s1_hi by (simp add: p_def)
  have "\<exists>r. rnd p = Fin r \<and> \<bar>r - p\<bar> \<le> \<bar>p\<bar> / 9007199254740992"
    using p_lo p_hi by (intro rnd_error_num) simp_all
  then obtain p1 where p1: "rnd p = Fin p1" and p1_err: "\<bar>p1 - p\<bar> \<le> \<bar>p\<bar> / 9007199254740992"
    by blast
  have p1_p: "\<bar>p1 - p\<bar> \<le> 1 / 8" using p1_err p_hi by linarith
  \<comment> \<open>the product is within a half of \<open>k\<close>\<close>
  have kk: "of_int k = 100 * c" by (simp add: c_def)
  have tri: "\<bar>x + y + z + w\<bar> \<le> \<bar>x\<bar> + \<bar>y\<bar> + \<bar>z\<bar> + \<bar>w\<bar>" for x y z w :: real
    by linarith
  have "p1 - 100 * c = (p1 - p) + 100 * (s1 - s) + 100 * (s - v) + 100 * (v - c)"
    by (simp add: p_def)
  then have "\<bar>p1 - 100 * c\<bar>
      \<le> \<bar>p1 - p\<bar> + \<bar>100 * (s1 - s)\<bar> + \<bar>100 * (s - v)\<bar> + \<bar>100 * (v - c)\<bar>"
    by (simp only: tri)
  also have "\<dots> = \<bar>p1 - p\<bar> + 100 * \<bar>s1 - s\<bar> + 100 * \<bar>s - v\<bar> + 100 * \<bar>v - c\<bar>"
    by (simp only: abs_mult abs_numeral)
  also have "\<dots> < 1 / 2"
  proof -
    have "a + 100 * b + 100 * d + 100 * g < 1 / 2"
      if "a \<le> 1 / 8" "b \<le> 1 / 800" "d = 1 / 4503599627370496" "g \<le> 1 / 800"
      for a b d g :: real
      using that by simp
    then show ?thesis using p1_p s1_s s_v v_c by blast
  qed
  finally have close: "\<bar>p1 - of_int k\<bar> < 1 / 2" unfolding kk .
  have fl: "\<lfloor>p1 + 1 / 2\<rfloor> = k"
    by (rule floor_unique) (use close in linarith)+
  have "round2 (Fin v) = fdiv (Math_round (fmul (rnd s) (Fin 100))) (Fin 100)"
    by (simp add: round2_def EPSILON_def s_def)
  also have "\<dots> = fdiv (Math_round (rnd p)) (Fin 100)" by (simp add: s1 p_def)
  also have "\<dots> = fdiv (Fin (of_int k)) (Fin 100)" by (simp add: p1 fl)
  also have "\<dots> = Fin v" using v by simp
  finally show ?thesis .
qed

lemma Math_round_Fin: "Math_round t = Fin w \<Longrightarrow> \<exists>t0. t = Fin t0 \<and> w = of_int \<lfloor>t0 + 1 / 2\<rfloor>"
  by (cases t) auto

lemma fdiv_100_Fin: "fdiv a (Fin 100) = Fin v \<Longrightarrow> \<exists>w. a = Fin w \<and> rnd (w / 100) = Fin v"
  by (cases a) auto

lemma round2_Fin:
  assumes "round2 x = Fin v"
  shows "\<exists>k. rnd (of_int k / 100) = Fin v"
proof -
  from assms obtain w where w: "Math_round (fmul (fadd x EPSILON) (Fin 100)) = Fin w"
    and r: "rnd (w / 100) = Fin v"
    unfolding round2_def using fdiv_100_Fin by blast
  from Math_round_Fin [OF w] obtain t0 :: real where "w = of_int \<lfloor>t0 + 1 / 2\<rfloor>" by blast
  with r show ?thesis by blast
qed

lemma round2_representable:
  assumes "round2 x = Fin v"
  shows "rnd v = Fin v"
  using round2_Fin [OF assms] rnd_idem by blast

text \<open>A result of \<open>round2\<close> up to \<open>10\<^sup>1\<^sup>3\<close> in magnitude is a fixed point of \<open>round2\<close>.\<close>

lemma round2_fixed:
  assumes r: "round2 x = Fin v" and b0: "\<bar>v\<bar> \<le> 10 ^ 13"
  shows "round2 (Fin v) = Fin v"
proof -
  from round2_Fin [OF r] obtain k where k: "rnd (of_int k / 100) = Fin v" by blast
  have b: "\<bar>v\<bar> \<le> 10000000000000" using b0 by simp
  have kb: "\<bar>k\<bar> \<le> 1100000000000000"
  proof (rule ccontr)
    assume "\<not> \<bar>k\<bar> \<le> 1100000000000000"
    then have "1100000000000001 \<le> \<bar>k\<bar>" by simp
    then have "(of_int (1100000000000001) :: real) \<le> of_int \<bar>k\<bar>" by (simp only: of_int_le_iff)
    then have big: "11000000000000 \<le> \<bar>of_int k / 100 :: real\<bar>" by simp
    show False
    proof (cases "\<bar>of_int k / 100 :: real\<bar> \<le> 2000000000000000")
      case True
      have "\<exists>r. rnd (of_int k / 100) = Fin r
              \<and> \<bar>r - of_int k / 100\<bar> \<le> \<bar>of_int k / 100 :: real\<bar> / 9007199254740992"
        using big True by (intro rnd_error_num) simp_all
      with k have "\<bar>v - of_int k / 100\<bar> \<le> \<bar>of_int k / 100 :: real\<bar> / 9007199254740992"
        by auto
      with big b show False by linarith
    next
      case False
      \<comment> \<open>a quotient this large cannot round to something below \<open>10\<^sup>1\<^sup>3\<close>\<close>
      define q :: real where "q = of_int k / 100"
      have q: "q \<noteq> 0" "2000000000000000 < \<bar>q\<bar>" using False by (auto simp: q_def)
      define e where "e = max (- 1074) (ilog2 q - 52)"
      define m where "m = round_even (\<bar>q\<bar> / pow2 e)"
      from k have "(if pow2 1024 \<le> of_int m * pow2 e then (if 0 < q then PosInf else NegInf)
          else Fin (if 0 < q then of_int m * pow2 e else - (of_int m * pow2 e))) = Fin v"
        unfolding q_def [symmetric] rnd_unfold [OF q(1)] Let_def e_def [symmetric]
          m_def [symmetric] .
      then have v': "\<bar>v\<bar> = \<bar>of_int m * pow2 e\<bar>" by (auto split: if_splits)
      have pe: "0 < pow2 e" by (rule pow2_pos)
      have "\<bar>of_int m - \<bar>q\<bar> / pow2 e\<bar> \<le> 1 / 2" unfolding m_def by (rule round_even_err)
      then have "\<bar>q\<bar> / pow2 e - 1 / 2 \<le> of_int m" by linarith
      then have "(\<bar>q\<bar> / pow2 e - 1 / 2) * pow2 e \<le> of_int m * pow2 e"
        using pe by (simp only: mult_right_mono less_imp_le)
      moreover have "(\<bar>q\<bar> / pow2 e - 1 / 2) * pow2 e = \<bar>q\<bar> - pow2 e / 2"
        using pe by (simp add: left_diff_distrib)
      ultimately have lowb: "\<bar>q\<bar> - pow2 e / 2 \<le> of_int m * pow2 e"
        by (simp only:)
      have lo_q: "pow2 (ilog2 q) \<le> \<bar>q\<bar>" by (rule ilog2_bounds(1) [OF q(1)])
      have ge: "10 \<le> ilog2 q"
      proof (rule ccontr)
        assume "\<not> 10 \<le> ilog2 q"
        then have "ilog2 q + 1 \<le> 10" by simp
        then have "pow2 (ilog2 q + 1) \<le> pow2 10" by (rule pow2_mono)
        moreover have "pow2 10 = 1024" by (simp add: pow2_def)
        moreover have "\<bar>q\<bar> < pow2 (ilog2 q + 1)" by (rule ilog2_bounds(2) [OF q(1)])
        ultimately show False using q(2) by linarith
      qed
      then have e_eq: "e = ilog2 q - 52" by (simp add: e_def)
      have "pow2 e * 2 ^ 52 = pow2 (ilog2 q)"
      proof -
        have "pow2 (ilog2 q) = pow2 (e + 52)" by (simp add: e_eq)
        also have "\<dots> = pow2 e * pow2 52" by (rule pow2_add)
        also have "pow2 52 = 2 ^ 52" by (simp add: pow2_def)
        finally show ?thesis by simp
      qed
      then have "pow2 e * 2 ^ 52 \<le> \<bar>q\<bar>" using lo_q by simp
      moreover have "pow2 e * 1 \<le> pow2 e * 2 ^ 52"
        using pe by (intro mult_left_mono) simp_all
      ultimately have "pow2 e / 2 \<le> \<bar>q\<bar> / 2" by linarith
      with lowb have "\<bar>q\<bar> / 2 \<le> of_int m * pow2 e" by linarith
      with q(2) v' b show False by linarith
    qed
  qed
  show ?thesis using kb k by (rule cents_fixed)
qed

text \<open>
  C9 (as amended).  Whenever \<open>round2 x\<close> is finite and at most \<open>10\<^sup>1\<^sup>3\<close> in magnitude,
  rounding it again changes nothing (also in the sense of \<^verbatim>\<open>===\<close>).  A scaled value
  that lies half-way between two integers is resolved by \<^verbatim>\<open>Math.round\<close>, that is to
  the larger integer, for negative values too.
\<close>

theorem round2_idempotent_bounded:
  assumes r: "round2 x = Fin v" and b0: "\<bar>v\<bar> \<le> 10 ^ 13"
  shows "round2 (round2 x) = round2 x \<and> feq (round2 (round2 x)) (round2 x)
    \<and> Math_round (Fin (of_int n - 1 / 2)) = Fin (of_int n)"
  using round2_fixed [OF r b0] by (simp add: r)

theorem round2_idempotent_witness:
  "round2 (lit (201 / 200)) = Fin (4548635623644201 / 4503599627370496)
   \<and> \<bar>4548635623644201 / 4503599627370496 :: real\<bar> \<le> 10 ^ 13
   \<and> round2 (round2 (lit (201 / 200))) = round2 (lit (201 / 200))
   \<and> feq (round2 (round2 (lit (201 / 200)))) (round2 (lit (201 / 200)))"
proof -
  have h1: "round2 (lit (201 / 200)) = Fin (4548635623644201 / 4503599627370496)"
    by (simp add: float_eval)
  have h2: "\<bar>4548635623644201 / 4503599627370496 :: real\<bar> \<le> 10 ^ 13" by simp
  from round2_idempotent_bounded [OF h1 h2] h1 h2 show ?thesis by blast
qed

text \<open>
  C9 as stated fails: \<^verbatim>\<open>43364040161029.625\<close> rounds to \<^verbatim>\<open>43364040161029.63\<close>, which
  rounds to \<^verbatim>\<open>43364040161029.64\<close>; and for \<^verbatim>\<open>-8.125\<close> the scaled value is exactly
  \<^verbatim>\<open>-812.5\<close>, which goes to \<^verbatim>\<open>-812\<close> (towards zero), giving \<^verbatim>\<open>-8.12\<close>.
\<close>

theorem round2_not_idempotent_counterexample:
  "round2 (Fin (346912321288237 / 8)) = Fin (5550597140611793 / 128)
   \<and> round2 (Fin (5550597140611793 / 128)) = Fin (2775298570305897 / 64)
   \<and> round2 (round2 (Fin (346912321288237 / 8))) \<noteq> round2 (Fin (346912321288237 / 8))
   \<and> fmul (fadd (Fin (- 65 / 8)) EPSILON) (Fin 100) = Fin (- 1625 / 2)
   \<and> round2 (Fin (- 65 / 8)) = lit (- 812 / 100)
   \<and> round2 (Fin (- 65 / 8)) \<noteq> lit (- 813 / 100)"
  by (simp add: float_eval)

subsection \<open>Cadences, sums and instalments\<close>

text \<open>
  C6.  For a finite amount both normalizers return the value of the factor table,
  computed as the source writes it (\<^verbatim>\<open>amount * 52 / 12\<close> is
  \<^verbatim>\<open>(amount * 52) / 12\<close>): the amount itself for monthly, times 52 over 12 for
  weekly, times 26 over 12 for fortnightly, over 12 for yearly and annual.
\<close>

theorem cadence_table:
  assumes "isFinite amount"
  shows "monthlyEquivalent amount Monthly = amount
    \<and> monthlyEquivalent amount Weekly = fdiv (fmul amount (Fin 52)) (Fin 12)
    \<and> monthlyEquivalent amount Fortnightly = fdiv (fmul amount (Fin 26)) (Fin 12)
    \<and> monthlyEquivalent amount Yearly = fdiv amount (Fin 12)
    \<and> toMonthly (item\<lparr> BudgetItem_amount := amount, BudgetItem_frequency := monthly \<rparr>)
        = amount
    \<and> toMonthly (item\<lparr> BudgetItem_amount := amount, BudgetItem_frequency := weekly \<rparr>)
        = fdiv (fmul amount (Fin 52)) (Fin 12)
    \<and> toMonthly (item\<lparr> BudgetItem_amount := amount, BudgetItem_frequency := annual \<rparr>)
        = fdiv amount (Fin 12)"
  using assms by (simp add: monthlyEquivalent_def toMonthly_def)

theorem cadence_table_witness:
  "isFinite (Fin 100)
   \<and> monthlyEquivalent (Fin 100) Monthly = Fin 100
   \<and> monthlyEquivalent (Fin 100) Weekly = Fin (7623280619246933 / 17592186044416)
   \<and> monthlyEquivalent (Fin 100) Weekly = fdiv (fmul (Fin 100) (Fin 52)) (Fin 12)
   \<and> monthlyEquivalent (Fin 120) Fortnightly = Fin 260
   \<and> monthlyEquivalent (Fin 120) Yearly = Fin 10
   \<and> toMonthly (budget_item_ex (Fin 120) annual) = Fin 10
   \<and> toMonthly (budget_item_ex (Fin 120) weekly) = Fin 520"
  using cadence_table [of "Fin 100" "budget_item_ex (Fin 100) monthly"]
        cadence_table [of "Fin 120" "budget_item_ex (Fin 120) monthly"]
  by (simp add: budget_item_ex_def float_eval)

lemma foldl_fadd_map:
  "foldl (\<lambda>a b. fadd a (f b)) z nums = foldl (\<lambda>a b. fadd a b) z (map f nums)"
  by (induction nums arbitrary: z) simp_all

text \<open>
  C4 (as amended).  The helper \<open>sum_app\<close> of \<^verbatim>\<open>app/utils.ts\<close> is the plain
  left-to-right sum of the addends, each non-finite one replaced by \<open>0\<close>, rounded
  once at the end.  The helper \<open>sum_exp\<close> of \<^verbatim>\<open>utils.ts\<close> is that plain sum
  itself: it starts from \<open>0\<close> and adds each addend as it is, with no replacement
  and no rounding.
\<close>

theorem sum_rounds_once:
  "sum_app nums = round2 (sum_exp (map (\<lambda>b. if isFinite b then b else Fin 0) nums))
   \<and> sum_exp [] = Fin 0
   \<and> sum_exp (nums @ [b]) = fadd (sum_exp nums) b"
  unfolding sum_app_def sum_exp_def
    foldl_fadd_map [of "\<lambda>b. if isFinite b then b else Fin 0"]
  by simp

text \<open>
  C4 as stated fails for the helper of \<^verbatim>\<open>utils.ts\<close>: the sum of \<^verbatim>\<open>0.1\<close> and \<^verbatim>\<open>0.2\<close> is
  \<^verbatim>\<open>0.30000000000000004\<close>, not the rounded \<^verbatim>\<open>0.3\<close>.
\<close>

theorem sum_exp_unrounded_counterexample:
  "sum_exp [lit (1 / 10), lit (2 / 10)]
     \<noteq> round2 (sum_exp (map (\<lambda>b. if isFinite b then b else Fin 0) [lit (1 / 10), lit (2 / 10)]))"
  by (simp add: sum_exp_def float_eval)

text \<open>
  C2.  With an annual rate of \<open>0\<close> the guard \<^verbatim>\<open>!annualRate\<close> of \<open>calcEmiMonthly\<close>
  returns \<^verbatim>\<open>null\<close> before the branch \<^verbatim>\<open>r === 0\<close> is reached, whatever the principal
  and the term, so the loan's instalment is \<open>0\<close>; \<open>calculateEmi\<close> returns \<open>0\<close> as
  well.  The straight-line instalment of 1200 over 12 months would be 100.
\<close>

theorem zero_rate_emi:
  "calcEmiMonthly Math_pow P (Some (Fin 0)) n = None
   \<and> getLoanMonthlyEmi Math_pow
        (loan\<lparr> Loan_autoCalcEmi := True, Loan_annualRate := Some (Fin 0) \<rparr>) = Fin 0
   \<and> getLoanMonthlyEmi Math_pow (auto_loan_ex (Fin 1200) (Fin 0) (Fin 12) Monthly) = Fin 0
   \<and> calculateEmi Math_pow (eloan\<lparr> ExpLoan_annualRate := Fin 0 \<rparr>) = Fin 0
   \<and> round2 (fdiv (Fin 1200) (Fin 12)) = Fin 100"
proof -
  have c: "calcEmiMonthly Math_pow P (Some (Fin 0)) n = None" for P n
    by (simp add: calcEmiMonthly_def falsy_def)
  have z: "round2 (monthlyEquivalent (Fin 0) f) = Fin 0" for f
    by (cases f) (simp_all add: monthlyEquivalent_def float_eval)
  have g: "getLoanMonthlyEmi Math_pow
        (loan\<lparr> Loan_autoCalcEmi := True, Loan_annualRate := Some (Fin 0) \<rparr>) = Fin 0" for loan
    by (simp add: getLoanMonthlyEmi_def c or_zero_def z)
  have g': "getLoanMonthlyEmi Math_pow (auto_loan_ex (Fin 1200) (Fin 0) (Fin 12) Monthly) = Fin 0"
    by (simp add: getLoanMonthlyEmi_def auto_loan_ex_def c or_zero_def z)
  have e: "calculateEmi Math_pow (eloan\<lparr> ExpLoan_annualRate := Fin 0 \<rparr>) = Fin 0"
    by (simp add: calculateEmi_def Let_def rnd_def)
  have s: "round2 (fdiv (Fin 1200) (Fin 12)) = Fin 100"
    by (simp add: float_eval)
  show ?thesis using c g g' e s by simp
qed

lemma calc_12000: 
  "calcEmiMonthly pow_rounded (Some (Fin 12000)) (Some (Fin 12)) (Some (Fin 12))
     = Some (lit (106619 / 100))"
  by (simp add: calcEmiMonthly_def falsy_def float_eval)

text \<open>
  C3 (as amended).  In \<^verbatim>\<open>app/utils.ts\<close>, a loan with manual instalment has the
  entered value (\<open>0\<close> when absent), normalized to a month and rounded to two
  decimals; a loan with automatic instalment and monthly cadence has the rounded
  output of the calculator when that is finite and \<open>0\<close> when it is absent or not
  finite, which is the output itself when it is at most \<open>10\<^sup>1\<^sup>3\<close> in magnitude.  A manual instalment of 500 paid weekly gives 2166.67.  In \<^verbatim>\<open>App.tsx\<close> the
  value of a loan is the output of \<open>calculateEmi\<close>, or the entered value or \<open>0\<close>,
  and is not rounded.
\<close>

theorem getLoanMonthlyEmi_cases:
  "(\<not> Loan_autoCalcEmi loan \<longrightarrow>
      getLoanMonthlyEmi Math_pow loan
        = round2 (monthlyEquivalent (or_zero (Loan_emi loan)) (Loan_paymentFrequency loan)))
   \<and> (Loan_autoCalcEmi loan \<and> Loan_paymentFrequency loan = Monthly \<longrightarrow>
      getLoanMonthlyEmi Math_pow loan
        = (case calcEmiMonthly Math_pow (Loan_principal loan) (Loan_annualRate loan)
                  (Loan_termMonths loan) of
             None \<Rightarrow> Fin 0
           | Some c \<Rightarrow> if isFinite c then round2 c else Fin 0))
   \<and> (Loan_autoCalcEmi loan \<and> Loan_paymentFrequency loan = Monthly
        \<and> calcEmiMonthly Math_pow (Loan_principal loan) (Loan_annualRate loan)
              (Loan_termMonths loan) = Some (Fin v)
        \<and> \<bar>v\<bar> \<le> 10 ^ 13 \<longrightarrow>
      getLoanMonthlyEmi Math_pow loan = Fin v)
   \<and> getLoanMonthlyEmi Math_pow (loan_ex i nm) = lit (216667 / 100)
   \<and> loanEmi_exp Math_pow eloan
        = (if ExpLoan_autoCalculate eloan then calculateEmi Math_pow eloan
           else emi_or_zero (ExpLoan_emi eloan))"
proof -
  have manual: "getLoanMonthlyEmi Math_pow loan
        = round2 (monthlyEquivalent (or_zero (Loan_emi loan)) (Loan_paymentFrequency loan))"
    if "\<not> Loan_autoCalcEmi loan"
    using that by (simp add: getLoanMonthlyEmi_def)
  have auto: "getLoanMonthlyEmi Math_pow loan
        = (case calcEmiMonthly Math_pow (Loan_principal loan) (Loan_annualRate loan)
                  (Loan_termMonths loan) of
             None \<Rightarrow> Fin 0
           | Some c \<Rightarrow> if isFinite c then round2 c else Fin 0)"
    if "Loan_autoCalcEmi loan \<and> Loan_paymentFrequency loan = Monthly"
    using that
    by (simp add: getLoanMonthlyEmi_def monthlyEquivalent_def or_zero_def round2_zero
          split: option.splits)
  have fixed: "getLoanMonthlyEmi Math_pow loan = Fin v"
    if h: "Loan_autoCalcEmi loan \<and> Loan_paymentFrequency loan = Monthly
        \<and> calcEmiMonthly Math_pow (Loan_principal loan) (Loan_annualRate loan)
              (Loan_termMonths loan) = Some (Fin v)
        \<and> \<bar>v\<bar> \<le> 10 ^ 13"
  proof -
    from h have c: "calcEmiMonthly Math_pow (Loan_principal loan) (Loan_annualRate loan)
              (Loan_termMonths loan) = Some (Fin v)" and b: "\<bar>v\<bar> \<le> 10 ^ 13"
      by simp_all
    from c obtain y where "round2 y = Fin v"
      by (auto simp: calcEmiMonthly_def Let_def split: if_splits option.splits)
    then have "round2 (Fin v) = Fin v" using b by (rule round2_fixed)
    then show ?thesis using h auto by simp
  qed
  have ex: "getLoanMonthlyEmi Math_pow (loan_ex i nm) = lit (216667 / 100)"
    by (simp add: getLoanMonthlyEmi_def loan_ex_def or_zero_def monthlyEquivalent_def float_eval)
  show ?thesis using manual auto fixed ex by (simp add: loanEmi_exp_def)
qed

theorem getLoanMonthlyEmi_cases_witness:
  "\<not> Loan_autoCalcEmi (loan_ex ''a'' ''car'')
   \<and> getLoanMonthlyEmi pow_rounded (loan_ex ''a'' ''car'')
       = round2 (fdiv (fmul (Fin 500) (Fin 52)) (Fin 12))
   \<and> Loan_autoCalcEmi (auto_loan_ex (Fin 12000) (Fin 12) (Fin 12) Monthly)
   \<and> Loan_paymentFrequency (auto_loan_ex (Fin 12000) (Fin 12) (Fin 12) Monthly) = Monthly
   \<and> calcEmiMonthly pow_rounded (Some (Fin 12000)) (Some (Fin 12)) (Some (Fin 12))
       = Some (Fin (2344576604836987 / 2199023255552))
   \<and> \<bar>2344576604836987 / 2199023255552 :: real\<bar> \<le> 10 ^ 13
   \<and> getLoanMonthlyEmi pow_rounded (auto_loan_ex (Fin 12000) (Fin 12) (Fin 12) Monthly)
       = Fin (2344576604836987 / 2199023255552)
   \<and> Fin (2344576604836987 / 2199023255552) = lit (106619 / 100)"
proof -
  have v: "lit (106619 / 100) = Fin (2344576604836987 / 2199023255552)"
    by (simp add: float_eval)
  have b: "\<bar>2344576604836987 / 2199023255552 :: real\<bar> \<le> 10 ^ 13" by simp
  note manual = getLoanMonthlyEmi_cases [where loan = "loan_ex ''a'' ''car''"
      and Math_pow = pow_rounded and v = 0 and i = "''a''" and nm = "''car''"
      and eloan = "exp_loan_ex (Fin 0) (Fin 0) (Fin 0) None False"]
  note auto = getLoanMonthlyEmi_cases [where Math_pow = pow_rounded
      and loan = "auto_loan_ex (Fin 12000) (Fin 12) (Fin 12) Monthly"
      and v = "2344576604836987 / 2199023255552" and i = "''a''" and nm = "''car''"
      and eloan = "exp_loan_ex (Fin 0) (Fin 0) (Fin 0) None False"]
  have m: "getLoanMonthlyEmi pow_rounded (loan_ex ''a'' ''car'')
       = round2 (fdiv (fmul (Fin 500) (Fin 52)) (Fin 12))"
    using manual by (simp add: loan_ex_def or_zero_def monthlyEquivalent_def)
  have c: "calcEmiMonthly pow_rounded (Some (Fin 12000)) (Some (Fin 12)) (Some (Fin 12))
       = Some (Fin (2344576604836987 / 2199023255552))"
    using calc_12000 unfolding v .
  have a: "getLoanMonthlyEmi pow_rounded (auto_loan_ex (Fin 12000) (Fin 12) (Fin 12) Monthly)
       = Fin (2344576604836987 / 2199023255552)"
  proof -
    let ?l = "auto_loan_ex (Fin 12000) (Fin 12) (Fin 12) Monthly"
    have "Loan_autoCalcEmi ?l \<and> Loan_paymentFrequency ?l = Monthly
        \<and> calcEmiMonthly pow_rounded (Loan_principal ?l) (Loan_annualRate ?l)
              (Loan_termMonths ?l) = Some (Fin (2344576604836987 / 2199023255552))
        \<and> \<bar>2344576604836987 / 2199023255552 :: real\<bar> \<le> 10 ^ 13"
      using c b by (simp add: auto_loan_ex_def)
    with auto show ?thesis by blast
  qed
  show ?thesis
    using m c b a v by (simp add: loan_ex_def auto_loan_ex_def)
qed

text \<open>
  C3 as stated fails twice.  A loan of 12000 at 12% over 12 months with automatic
  instalment and weekly cadence: the calculator gives 1066.19, the loan's value is
  4620.16.  In \<^verbatim>\<open>App.tsx\<close> a manual instalment of 10.005 stays 10.005 and is not
  rounded to 10.01.
\<close>

theorem getLoanMonthlyEmi_counterexample:
  "or_zero (calcEmiMonthly pow_rounded (Some (Fin 12000)) (Some (Fin 12)) (Some (Fin 12)))
     = lit (106619 / 100)
   \<and> getLoanMonthlyEmi pow_rounded (auto_loan_ex (Fin 12000) (Fin 12) (Fin 12) Weekly)
     = lit (462016 / 100)
   \<and> getLoanMonthlyEmi pow_rounded (auto_loan_ex (Fin 12000) (Fin 12) (Fin 12) Weekly)
     \<noteq> or_zero (calcEmiMonthly pow_rounded (Some (Fin 12000)) (Some (Fin 12)) (Some (Fin 12)))
   \<and> loanEmi_exp pow_rounded (exp_loan_ex (Fin 0) (Fin 0) (Fin 0) (Some (lit (10005 / 1000))) False)
     = lit (10005 / 1000)
   \<and> loanEmi_exp pow_rounded (exp_loan_ex (Fin 0) (Fin 0) (Fin 0) (Some (lit (10005 / 1000))) False)
     \<noteq> round2 (lit (10005 / 1000))"
proof -
  have w: "getLoanMonthlyEmi pow_rounded (auto_loan_ex (Fin 12000) (Fin 12) (Fin 12) Weekly)
             = lit (462016 / 100)"
    unfolding getLoanMonthlyEmi_def auto_loan_ex_def
    by (simp add: calc_12000 or_zero_def monthlyEquivalent_def float_eval)
  have e: "loanEmi_exp pow_rounded (exp_loan_ex (Fin 0) (Fin 0) (Fin 0) (Some (lit (10005 / 1000))) False)
     = lit (10005 / 1000)"
    by (simp add: loanEmi_exp_def exp_loan_ex_def emi_or_zero_def float_eval)
  have r: "round2 (lit (10005 / 1000)) \<noteq> lit (10005 / 1000)"
    by (simp add: float_eval)
  show ?thesis
    using w e r by (simp add: calc_12000 or_zero_def float_eval)
qed

subsection \<open>Net worth\<close>

lemma sum_app_representable: "sum_app nums = Fin x \<Longrightarrow> rnd x = Fin x"
  unfolding sum_app_def by (rule round2_representable)

lemma fadd_zero_finite_or_zero:
  assumes "\<And>x. a = Fin x \<Longrightarrow> rnd x = Fin x"
  shows "fadd (Fin 0) (if isFinite a then a else Fin 0) = finite_or_zero a"
  using assms by (cases a) (simp_all add: finite_or_zero_def rnd_def)

lemma fneg_finite_or_zero:
  "(if isFinite (fneg l) then fneg l else Fin 0) = fneg (finite_or_zero l)"
  by (cases l) (simp_all add: finite_or_zero_def)

lemma sum_app_pair:
  assumes "\<And>x. a = Fin x \<Longrightarrow> rnd x = Fin x"
  shows "sum_app [a, fneg l] = round2 (fsub (finite_or_zero a) (finite_or_zero l))"
proof -
  have "sum_app [a, fneg l]
      = round2 (fadd (fadd (Fin 0) (if isFinite a then a else Fin 0))
                     (if isFinite (fneg l) then fneg l else Fin 0))"
    by (simp add: sum_app_def)
  also have "\<dots> = round2 (fadd (finite_or_zero a) (fneg (finite_or_zero l)))"
    by (simp only: fadd_zero_finite_or_zero [OF assms] fneg_finite_or_zero)
  finally show ?thesis by (simp only: fsub_def)
qed

text \<open>
  C5 (as amended).  In \<^verbatim>\<open>App.tsx\<close> the net worth is exactly the assets total minus the
  liabilities total.  On the dashboard it is that difference, a total that is not
  finite counted as \<open>0\<close>, rounded to two decimals.
\<close>

theorem netWorth_difference:
  "netWorth_exp state = fsub (assetsTotal_exp state) (liabilitiesTotal_exp state)
   \<and> netWorth_app state'
       = round2 (fsub (finite_or_zero (assetsTotal_app state'))
                      (finite_or_zero (liabilitiesTotal_app state')))"
proof -
  have "\<And>x. assetsTotal_app state' = Fin x \<Longrightarrow> rnd x = Fin x"
    unfolding assetsTotal_app_def by (rule sum_app_representable)
  then have "netWorth_app state'
       = round2 (fsub (finite_or_zero (assetsTotal_app state'))
                      (finite_or_zero (liabilitiesTotal_app state')))"
    unfolding netWorth_app_def by (rule sum_app_pair)
  then show ?thesis by (simp add: netWorth_exp_def)
qed

lemma networth_ex_totals:
  "assetsTotal_app networth_state_ex = lit (3 / 10)"
  "liabilitiesTotal_app networth_state_ex = lit (1 / 10)"
  by (simp_all add: assetsTotal_app_def liabilitiesTotal_app_def networth_state_ex_def
        asset_ex_def liability_ex_def sum_app_def float_eval)

text \<open>
  C5 as stated fails on the dashboard: with an asset of \<^verbatim>\<open>0.3\<close> and a liability of
  \<^verbatim>\<open>0.1\<close> the totals are \<^verbatim>\<open>0.3\<close> and \<^verbatim>\<open>0.1\<close> and the net worth is \<^verbatim>\<open>0.2\<close>, while
  \<^verbatim>\<open>0.3 - 0.1\<close> is \<^verbatim>\<open>0.19999999999999998\<close>.
\<close>

theorem netWorth_app_counterexample:
  "assetsTotal_app networth_state_ex = lit (3 / 10)
   \<and> liabilitiesTotal_app networth_state_ex = lit (1 / 10)
   \<and> netWorth_app networth_state_ex = lit (2 / 10)
   \<and> fsub (assetsTotal_app networth_state_ex) (liabilitiesTotal_app networth_state_ex)
       = Fin (7205759403792793 / 36028797018963968)
   \<and> netWorth_app networth_state_ex
       \<noteq> fsub (assetsTotal_app networth_state_ex) (liabilitiesTotal_app networth_state_ex)"
  unfolding netWorth_app_def networth_ex_totals
  by (simp add: sum_app_def float_eval)

end
